theory Spec2Isabelle
  imports Main "HOL-Library.Sublist"
begin

section \<open>Python values\<close>

text \<open>
  A Python \<^verbatim>\<open>str\<close> is a sequence of Unicode code points; it is modelled as a list of
  natural numbers. \<open>str\<close> embeds an ASCII literal.
\<close>

type_synonym pystr = "nat list"

definition str :: "string \<Rightarrow> pystr" where
  "str s = map of_char s"

text \<open>
  The values that reach the program from its callers and from \<^verbatim>\<open>json.load\<close>. A float
  is only ever type-tested by the code, never computed with; its payload (mantissa,
  exponent) only keeps different floats apart.
\<close>

datatype pyval =
    PNone
  | PBool bool
  | PInt int
  | PFloat int int
  | PStr pystr
  | PList "pyval list"
  | PDict "(pystr \<times> pyval) list"

text \<open>
  The exception classes the code can raise. \<^verbatim>\<open>json.JSONDecodeError\<close> and
  \<^verbatim>\<open>UnicodeEncodeError\<close> are subclasses of \<^verbatim>\<open>ValueError\<close> in Python; they are kept apart
  here so that the origin of a failure stays visible.
\<close>

datatype error = ValueError | TypeError | KeyError | IndexError
  | FileNotFoundError | JSONDecodeError | UnicodeEncodeError

text \<open>
  The values \<open>v\<close> with \<^verbatim>\<open>isinstance(v, int)\<close>: Python's \<^verbatim>\<open>bool\<close> is a subclass of
  \<^verbatim>\<open>int\<close>, with \<^verbatim>\<open>True == 1\<close> and \<^verbatim>\<open>False == 0\<close>, but \<^verbatim>\<open>str(True) == 'True'\<close>.
\<close>

datatype pyint = IntV int | BoolV bool

fun int_val :: "pyint \<Rightarrow> int" where
  "int_val (IntV n) = n"
| "int_val (BoolV b) = (if b then 1 else 0)"

fun as_pyint :: "pyval \<Rightarrow> pyint option" where
  "as_pyint (PInt n) = Some (IntV n)"
| "as_pyint (PBool b) = Some (BoolV b)"
| "as_pyint _ = None"

fun of_pyint :: "pyint \<Rightarrow> pyval" where
  "of_pyint (IntV n) = PInt n"
| "of_pyint (BoolV b) = PBool b"

subsection \<open>Character classes\<close>

text \<open>
  \<^verbatim>\<open>str.isspace\<close> of one character (Unicode 14, the table of CPython 3.11).
\<close>

definition isspace_cp :: "nat \<Rightarrow> bool" where
  "isspace_cp c = (c \<in> set [9, 10, 11, 12, 13, 28, 29, 30, 31, 32, 133, 160, 5760,
     8192, 8193, 8194, 8195, 8196, 8197, 8198, 8199, 8200, 8201, 8202,
     8232, 8233, 8239, 8287, 12288])"

text \<open>
  The code points of decimal value 0 (Unicode 14): each starts a block of ten
  consecutive code points of decimal values 0 to 9.
\<close>

definition decimal_zeros :: "nat list" where
  "decimal_zeros = [48, 1632, 1776, 1984, 2406, 2534, 2662, 2790, 2918, 3046, 3174,
     3302, 3430, 3558, 3664, 3792, 3872, 4160, 4240, 6112, 6160, 6470, 6608, 6784,
     6800, 6992, 7088, 7232, 7248, 42528, 43216, 43264, 43472, 43504, 43600, 44016,
     65296, 66720, 68912, 69734, 69872, 69942, 70096, 70384, 70736, 70864, 71248,
     71360, 71472, 71904, 72016, 72784, 73040, 73120, 92768, 92864, 93008, 120782,
     120792, 120802, 120812, 120822, 123200, 123632, 125264, 130032]"

definition decimal_cp :: "nat \<Rightarrow> nat option" where
  "decimal_cp c = (case List.find (\<lambda>z. z \<le> c \<and> c < z + 10) decimal_zeros of
      None \<Rightarrow> None | Some z \<Rightarrow> Some (c - z))"

text \<open>
  The characters of numeric type Digit that are not decimal (superscripts, circled
  digits and the like), as inclusive ranges.
\<close>

definition other_digit_ranges :: "(nat \<times> nat) list" where
  "other_digit_ranges = [(178, 179), (185, 185), (4969, 4977), (6618, 6618),
     (8304, 8304), (8308, 8313), (8320, 8329), (9312, 9320), (9332, 9340),
     (9352, 9360), (9450, 9450), (9461, 9469), (9471, 9471), (10102, 10110),
     (10112, 10120), (10122, 10130), (68160, 68163), (69216, 69224),
     (69714, 69722), (127232, 127242)]"

definition isdigit_cp :: "nat \<Rightarrow> bool" where
  "isdigit_cp c = (decimal_cp c \<noteq> None \<or> list_ex (\<lambda>(lo, hi). lo \<le> c \<and> c \<le> hi) other_digit_ranges)"

text \<open>
  \<^verbatim>\<open>str.isdigit()\<close>: every character is a digit and there is at least one character.
\<close>

definition isdigit :: "pystr \<Rightarrow> bool" where
  "isdigit s = (s \<noteq> [] \<and> list_all isdigit_cp s)"

section \<open>Book\<close>

definition STATUS_YES :: pystr where
  "STATUS_YES = [1074, 32, 1085, 1072, 1083, 1080, 1095, 1080, 1080]"

definition STATUS_NO :: pystr where
  "STATUS_NO = [1074, 1099, 1076, 1072, 1085, 1072]"

text \<open>
  The private attributes of a \<^verbatim>\<open>Book\<close>. Every attribute is written through its setter
  only, so \<open>title\<close> and \<open>author\<close> always hold a \<^verbatim>\<open>str\<close>, \<open>year\<close> an \<^verbatim>\<open>int\<close>, \<open>id_book\<close>
  \<^verbatim>\<open>None\<close> or an \<^verbatim>\<open>int\<close>, and \<open>status\<close> \<^verbatim>\<open>None\<close> or a \<^verbatim>\<open>str\<close>.
\<close>

record Book =
  title :: pystr
  author :: pystr
  year :: pyint
  id_book :: "pyint option"
  status :: "pystr option"

fun title_setter :: "pyval \<Rightarrow> error + pystr" where
  "title_setter (PStr s) = Inr s"
| "title_setter _ = Inl ValueError"

fun author_setter :: "pyval \<Rightarrow> error + pystr" where
  "author_setter (PStr s) = (if isdigit s then Inl ValueError else Inr s)"
| "author_setter _ = Inl ValueError"

definition year_setter :: "pyval \<Rightarrow> error + pyint" where
  "year_setter v = (case as_pyint v of None \<Rightarrow> Inl ValueError | Some y \<Rightarrow> Inr y)"

definition id_setter :: "pyval \<Rightarrow> error + pyint option" where
  "id_setter v = (if v = PNone then Inr None
     else case as_pyint v of None \<Rightarrow> Inl ValueError | Some i \<Rightarrow> Inr (Some i))"

fun status_setter :: "pyval \<Rightarrow> error + pystr option" where
  "status_setter PNone = Inr None"
| "status_setter (PStr s) =
     (if s = STATUS_YES \<or> s = STATUS_NO then Inr (Some s) else Inl ValueError)"
| "status_setter _ = Inl ValueError"

text \<open>\<^verbatim>\<open>Book.__init__\<close>: the three setters in the order title, author, year.\<close>

definition Book_init :: "pyval \<Rightarrow> pyval \<Rightarrow> pyval \<Rightarrow> error + Book" where
  "Book_init t a y =
     (case title_setter t of Inl e \<Rightarrow> Inl e | Inr t' \<Rightarrow>
       (case author_setter a of Inl e \<Rightarrow> Inl e | Inr a' \<Rightarrow>
         (case year_setter y of Inl e \<Rightarrow> Inl e | Inr y' \<Rightarrow>
            Inr \<lparr>title = t', author = a', year = y', id_book = None, status = None\<rparr>)))"

section \<open>Library\<close>

text \<open>
  \<open>next_id\<close> is whatever was last assigned to the attribute: \<^verbatim>\<open>load_from_json\<close> stores
  the document's value unchecked.
\<close>

record Library =
  books :: "Book list"
  next_id :: pyval

definition Library_init :: Library where
  "Library_init = \<lparr>books = [], next_id = PInt 1\<rparr>"

text \<open>
  Every operation returns its result, or the exception raised, together with the
  state of the library it leaves behind.

  \<^verbatim>\<open>add_book\<close>: \<^verbatim>\<open>self.next_id += 1\<close> runs after the append; it is reached only when the
  id setter has accepted \<open>next_id\<close>, so on \<^verbatim>\<open>None\<close> (a \<^verbatim>\<open>TypeError\<close>) or an \<^verbatim>\<open>int\<close>.
\<close>

definition add_book :: "Library \<Rightarrow> pyval \<Rightarrow> pyval \<Rightarrow> pyval \<Rightarrow> (error + Book) \<times> Library" where
  "add_book lib t a y =
     (case Book_init t a y of Inl e \<Rightarrow> (Inl e, lib) | Inr book \<Rightarrow>
       (case id_setter (next_id lib) of Inl e \<Rightarrow> (Inl e, lib) | Inr i \<Rightarrow>
         (case status_setter (PStr STATUS_YES) of Inl e \<Rightarrow> (Inl e, lib) | Inr s \<Rightarrow>
            (let book' = book\<lparr>id_book := i, status := s\<rparr>;
                 lib' = lib\<lparr>books := books lib @ [book']\<rparr>
             in (case i of
                   None \<Rightarrow> (Inl TypeError, lib')
                 | Some n \<Rightarrow> (Inr book', lib'\<lparr>next_id := PInt (int_val n + 1)\<rparr>))))))"

text \<open>\<^verbatim>\<open>book.id == book_id\<close> for an integer \<open>book_id\<close>: \<^verbatim>\<open>None\<close> equals no integer.\<close>

fun id_eq :: "pyint option \<Rightarrow> int \<Rightarrow> bool" where
  "id_eq None k = False"
| "id_eq (Some i) k = (int_val i = k)"

definition remove_book :: "Library \<Rightarrow> int \<Rightarrow> bool \<times> Library" where
  "remove_book lib book_id =
     (let initial_length = length (books lib);
          lib' = lib\<lparr>books := filter (\<lambda>book. \<not> id_eq (id_book book) book_id) (books lib)\<rparr>
      in (length (books lib') < initial_length, lib'))"

text \<open>\<^verbatim>\<open>find_books\<close>: the loop appends the matching books to \<open>result\<close>.\<close>

definition matches :: "pystr option \<Rightarrow> pystr option \<Rightarrow> int option \<Rightarrow> Book \<Rightarrow> bool" where
  "matches t a y book =
     ((t = None \<or> Some (title book) = t) \<and>
      (a = None \<or> Some (author book) = a) \<and>
      (y = None \<or> Some (int_val (year book)) = y))"

fun find_loop :: "pystr option \<Rightarrow> pystr option \<Rightarrow> int option \<Rightarrow> Book list \<Rightarrow> Book list \<Rightarrow> Book list" where
  "find_loop t a y [] result = result"
| "find_loop t a y (book # bs) result =
     find_loop t a y bs (if matches t a y book then result @ [book] else result)"

definition find_books :: "Library \<Rightarrow> pystr option \<Rightarrow> pystr option \<Rightarrow> int option \<Rightarrow> Book list" where
  "find_books lib t a y = find_loop t a y (books lib) []"

text \<open>
  \<^verbatim>\<open>change_status\<close>: the first book with the id is updated in place and the loop
  returns; a status that is neither constant raises.
\<close>

fun change_status_loop :: "Book list \<Rightarrow> int \<Rightarrow> (error + bool) \<times> Book list" where
  "change_status_loop [] book_id = (Inr False, [])"
| "change_status_loop (book # bs) book_id =
     (if id_eq (id_book book) book_id then
        (if status book = Some STATUS_YES then (Inr True, book\<lparr>status := Some STATUS_NO\<rparr> # bs)
         else if status book = Some STATUS_NO then (Inr True, book\<lparr>status := Some STATUS_YES\<rparr> # bs)
         else (Inl ValueError, book # bs))
      else (case change_status_loop bs book_id of (r, bs') \<Rightarrow> (r, book # bs')))"

definition change_status :: "Library \<Rightarrow> int \<Rightarrow> (error + bool) \<times> Library" where
  "change_status lib book_id =
     (case change_status_loop (books lib) book_id of (r, bs) \<Rightarrow> (r, lib\<lparr>books := bs\<rparr>))"


text \<open>
  A trace of calls on one library, for properties of sequences of operations: \<open>run\<close>
  performs the calls in order and collects the id of the book each successful
  \<^verbatim>\<open>add_book\<close> returns.
\<close>

datatype call = Add pyval pyval pyval | Remove int | ChangeStatus int

fun run :: "call list \<Rightarrow> Library \<Rightarrow> pyint option list \<times> Library" where
  "run [] lib = ([], lib)"
| "run (Add t a y # cs) lib =
     (case add_book lib t a y of
        (Inl e, lib') \<Rightarrow> run cs lib'
      | (Inr book, lib') \<Rightarrow> (case run cs lib' of (ids, lib'') \<Rightarrow> (id_book book # ids, lib'')))"
| "run (Remove book_id # cs) lib = run cs (snd (remove_book lib book_id))"
| "run (ChangeStatus book_id # cs) lib = run cs (snd (change_status lib book_id))"

text \<open>
  The catalog invariant of the specification: every record has an id, the ids are
  pairwise different (as integers) and each is below \<open>next_id\<close>.
\<close>

definition ids_unique_below :: "Library \<Rightarrow> bool" where
  "ids_unique_below lib =
     (case as_pyint (next_id lib) of
        None \<Rightarrow> False
      | Some n \<Rightarrow>
          list_all (\<lambda>i. case i of None \<Rightarrow> False | Some k \<Rightarrow> int_val k < int_val n)
            (map id_book (books lib)) \<and>
          distinct (map (map_option int_val) (map id_book (books lib))))"

section \<open>Integers and strings on their way to a file\<close>

text \<open>
  The decimal digits of a natural number, and \<open>decimal\<close>, the text of an integer: its
  digits, with a minus sign when negative.
\<close>

fun digits_of :: "nat \<Rightarrow> pystr" where
  "digits_of n = (if n < 10 then [48 + n] else digits_of (n div 10) @ [48 + n mod 10])"

declare digits_of.simps [simp del]

definition decimal :: "int \<Rightarrow> pystr" where
  "decimal n = (if n < 0 then 45 # digits_of (nat (- n)) else digits_of (nat n))"

text \<open>
  CPython (3.11, with the default of \<^verbatim>\<open>sys.set_int_max_str_digits\<close>, which the program
  does not change) refuses to convert between \<^verbatim>\<open>int\<close> and \<^verbatim>\<open>str\<close> when more than 4300
  digits are involved, the sign not counted: \<^verbatim>\<open>str(n)\<close>, an f-string and \<^verbatim>\<open>json.dump\<close>
  raise \<^verbatim>\<open>ValueError\<close> for such an integer.
\<close>

definition max_str_digits :: nat where
  "max_str_digits = 4300"

definition short_int :: "int \<Rightarrow> bool" where
  "short_int n = (length (digits_of (nat \<bar>n\<bar>)) \<le> max_str_digits)"

definition str_of_int :: "int \<Rightarrow> error + pystr" where
  "str_of_int n = (if short_int n then Inr (decimal n) else Inl ValueError)"

text \<open>
  Both files are opened with \<^verbatim>\<open>encoding='utf-8'\<close>. A Python string may hold surrogate
  code points (U+D800 to U+DFFF), which UTF-8 cannot encode: \<^verbatim>\<open>f.write(s)\<close> encodes \<open>s\<close>
  at once and raises \<^verbatim>\<open>UnicodeEncodeError\<close>, writing nothing of \<open>s\<close>, when \<open>s\<close> holds one.
  What was written before stays in the file. Opening a file for writing is taken to
  succeed; it leaves the file empty.
\<close>

definition surrogate :: "nat \<Rightarrow> bool" where
  "surrogate c = (55296 \<le> c \<and> c \<le> 57343)"

definition encodable :: "pystr \<Rightarrow> bool" where
  "encodable s = list_all (\<lambda>c. \<not> surrogate c) s"

definition f_write :: "pystr \<Rightarrow> pystr \<Rightarrow> error + pystr" where
  "f_write content s = (if encodable s then Inr (content @ s) else Inl UnicodeEncodeError)"

section \<open>The JSON format\<close>

text \<open>
  \<^verbatim>\<open>d[key]\<close> for a string key: only a \<^verbatim>\<open>dict\<close> can be subscripted by a string. A dict is
  an association list, looked up from the front; \<^verbatim>\<open>json.load\<close> yields distinct keys.
\<close>

fun getitem :: "pyval \<Rightarrow> pystr \<Rightarrow> error + pyval" where
  "getitem (PDict kvs) k = (case map_of kvs k of None \<Rightarrow> Inl KeyError | Some v \<Rightarrow> Inr v)"
| "getitem _ k = Inl TypeError"

text \<open>The items a \<^verbatim>\<open>for\<close> clause iterates over.\<close>

fun py_iter :: "pyval \<Rightarrow> error + pyval list" where
  "py_iter (PList xs) = Inr xs"
| "py_iter (PDict kvs) = Inr (map (\<lambda>kv. PStr (fst kv)) kvs)"
| "py_iter (PStr s) = Inr (map (\<lambda>c. PStr [c]) s)"
| "py_iter _ = Inl TypeError"

fun opt_pyint :: "pyint option \<Rightarrow> pyval" where
  "opt_pyint None = PNone"
| "opt_pyint (Some i) = of_pyint i"

fun opt_str :: "pystr option \<Rightarrow> pyval" where
  "opt_str None = PNone"
| "opt_str (Some s) = PStr s"

definition to_dict :: "Book \<Rightarrow> pyval" where
  "to_dict book = PDict
     [(str ''id'', opt_pyint (id_book book)),
      (str ''title'', PStr (title book)),
      (str ''author'', PStr (author book)),
      (str ''year'', of_pyint (year book)),
      (str ''status'', opt_str (status book))]"

text \<open>
  \<^verbatim>\<open>Book.from_dict\<close>: the three subscripts of the constructor call are evaluated first,
  then the constructor validates, then id and status are read and set.
\<close>

definition from_dict :: "pyval \<Rightarrow> error + Book" where
  "from_dict data =
     (case getitem data (str ''title'') of Inl e \<Rightarrow> Inl e | Inr t \<Rightarrow>
       (case getitem data (str ''author'') of Inl e \<Rightarrow> Inl e | Inr a \<Rightarrow>
         (case getitem data (str ''year'') of Inl e \<Rightarrow> Inl e | Inr y \<Rightarrow>
           (case Book_init t a y of Inl e \<Rightarrow> Inl e | Inr book \<Rightarrow>
             (case getitem data (str ''id'') of Inl e \<Rightarrow> Inl e | Inr i \<Rightarrow>
               (case id_setter i of Inl e \<Rightarrow> Inl e | Inr i' \<Rightarrow>
                 (case getitem data (str ''status'') of Inl e \<Rightarrow> Inl e | Inr s \<Rightarrow>
                   (case status_setter s of Inl e \<Rightarrow> Inl e | Inr s' \<Rightarrow>
                      Inr (book\<lparr>id_book := i', status := s'\<rparr>)))))))))"

text \<open>The list comprehension of \<^verbatim>\<open>load_from_json\<close>: the first failing element raises.\<close>

fun from_dicts :: "pyval list \<Rightarrow> error + Book list" where
  "from_dicts [] = Inr []"
| "from_dicts (d # ds) =
     (case from_dict d of Inl e \<Rightarrow> Inl e | Inr book \<Rightarrow>
       (case from_dicts ds of Inl e \<Rightarrow> Inl e | Inr bs \<Rightarrow> Inr (book # bs)))"

text \<open>
  The \<^verbatim>\<open>json\<close> module is not part of the program. A \<^verbatim>\<open>.json\<close> file is represented by what
  \<^verbatim>\<open>json.load\<close> makes of it: a value, or no value when the text is not JSON. That
  \<^verbatim>\<open>json.load\<close> returns the value \<^verbatim>\<open>json.dump\<close> was given (true for values built from
  dicts with string keys, lists, strings, integers, booleans and \<^verbatim>\<open>None\<close>) is therefore
  part of this representation, and strings are taken to be encodable in UTF-8.
\<close>

datatype json_file = Malformed | Document pyval

type_synonym json_fs = "pystr \<Rightarrow> json_file option"

text \<open>
  \<^verbatim>\<open>json.dump\<close> hands the text to the file piece by piece, in the order of the document.
  The first integer too long to print raises \<^verbatim>\<open>ValueError\<close> when its piece is made; the
  first string, a key or a value, that holds a surrogate raises \<^verbatim>\<open>UnicodeEncodeError\<close>
  when its piece is written (\<^verbatim>\<open>ensure_ascii=False\<close> leaves it unescaped). Nothing else
  in a value that \<^verbatim>\<open>json.load\<close> or the program has made can fail. \<open>json_dump_error\<close> is the
  exception raised, if any.
\<close>

fun first_error :: "error option list \<Rightarrow> error option" where
  "first_error [] = None"
| "first_error (None # es) = first_error es"
| "first_error (Some e # es) = Some e"

primrec json_dump_error :: "pyval \<Rightarrow> error option" where
  "json_dump_error PNone = None"
| "json_dump_error (PBool b) = None"
| "json_dump_error (PInt n) = (if short_int n then None else Some ValueError)"
| "json_dump_error (PFloat m e) = None"
| "json_dump_error (PStr s) = (if encodable s then None else Some UnicodeEncodeError)"
| "json_dump_error (PList xs) = first_error (map json_dump_error xs)"
| "json_dump_error (PDict kvs) =
     first_error (map (\<lambda>ke. if encodable (fst ke) then snd ke else Some UnicodeEncodeError)
                   (map (map_prod id json_dump_error) kvs))"

text \<open>
  \<^verbatim>\<open>save_to_json\<close>. When \<^verbatim>\<open>json.dump\<close> raises, the file holds the pieces written so far:
  a text that starts the object and never closes it, which \<^verbatim>\<open>json.load\<close> rejects.
\<close>

definition save_to_json :: "json_fs \<Rightarrow> Library \<Rightarrow> pystr \<Rightarrow> (error + unit) \<times> json_fs" where
  "save_to_json fs lib filename =
     (let data = PDict [(str ''next_id'', next_id lib),
                        (str ''books'', PList (map to_dict (books lib)))];
          name = filename @ str ''.json''
      in (case json_dump_error data of
            None \<Rightarrow> (Inr (), fs(name \<mapsto> Document data))
          | Some e \<Rightarrow> (Inl e, fs(name \<mapsto> Malformed))))"

text \<open>
  \<^verbatim>\<open>load_from_json\<close>: \<open>next_id\<close> is assigned as soon as it is read; \<open>books\<close> is assigned
  after the whole comprehension has run.
\<close>

definition load_from_json :: "json_fs \<Rightarrow> Library \<Rightarrow> pystr \<Rightarrow> (error + unit) \<times> Library" where
  "load_from_json fs lib filename =
     (case fs (filename @ str ''.json'') of
        None \<Rightarrow> (Inl FileNotFoundError, lib)
      | Some Malformed \<Rightarrow> (Inl JSONDecodeError, lib)
      | Some (Document data) \<Rightarrow>
         (case getitem data (str ''next_id'') of Inl e \<Rightarrow> (Inl e, lib) | Inr n \<Rightarrow>
           (let lib1 = lib\<lparr>next_id := n\<rparr> in
             (case getitem data (str ''books'') of Inl e \<Rightarrow> (Inl e, lib1) | Inr bs \<Rightarrow>
               (case py_iter bs of Inl e \<Rightarrow> (Inl e, lib1) | Inr items \<Rightarrow>
                 (case from_dicts items of Inl e \<Rightarrow> (Inl e, lib1)
                  | Inr books' \<Rightarrow> (Inr (), lib1\<lparr>books := books'\<rparr>)))))))"

section \<open>The text format\<close>

subsection \<open>Formatting\<close>

text \<open>\<^verbatim>\<open>str\<close> of an integer value; a \<^verbatim>\<open>bool\<close> prints as its name.\<close>

fun str_of_pyint :: "pyint \<Rightarrow> error + pystr" where
  "str_of_pyint (IntV n) = str_of_int n"
| "str_of_pyint (BoolV b) = Inr (if b then str ''True'' else str ''False'')"

text \<open>
  What an f-string makes of a value. The renderings of floats, lists and dicts are
  Python's own and not modelled: \<open>repr_other\<close> stands for them.
\<close>

fun format_val :: "(pyval \<Rightarrow> error + pystr) \<Rightarrow> pyval \<Rightarrow> error + pystr" where
  "format_val repr_other PNone = Inr (str ''None'')"
| "format_val repr_other (PBool b) = str_of_pyint (BoolV b)"
| "format_val repr_other (PInt n) = str_of_int n"
| "format_val repr_other (PStr s) = Inr s"
| "format_val repr_other v = repr_other v"

fun format_id :: "pyint option \<Rightarrow> error + pystr" where
  "format_id None = Inr (str ''None'')"
| "format_id (Some i) = str_of_pyint i"

fun format_status :: "pystr option \<Rightarrow> pystr" where
  "format_status None = str ''None''"
| "format_status (Some s) = s"

text \<open>
  The line \<^verbatim>\<open>save_to_text\<close> formats for one book, the fields in the order of the
  f-string; 124 is \<^verbatim>\<open>|\<close> and 10 the line feed.
\<close>

definition book_line :: "Book \<Rightarrow> error + pystr" where
  "book_line book =
     (case format_id (id_book book) of Inl e \<Rightarrow> Inl e | Inr i \<Rightarrow>
       (case str_of_pyint (year book) of Inl e \<Rightarrow> Inl e | Inr y \<Rightarrow>
          Inr (i @ [124] @ title book @ [124] @ author book @ [124] @ y @ [124] @
               format_status (status book) @ [10])))"

text \<open>The loop of \<^verbatim>\<open>save_to_text\<close>: each line is formatted, then written.\<close>

fun write_books :: "Book list \<Rightarrow> pystr \<Rightarrow> (error + unit) \<times> pystr" where
  "write_books [] content = (Inr (), content)"
| "write_books (book # bs) content =
     (case book_line book of Inl e \<Rightarrow> (Inl e, content) | Inr line \<Rightarrow>
       (case f_write content line of Inl e \<Rightarrow> (Inl e, content)
        | Inr content' \<Rightarrow> write_books bs content'))"

type_synonym text_fs = "pystr \<Rightarrow> pystr option"

text \<open>
  \<^verbatim>\<open>save_to_text\<close>: the first line holds \<open>next_id\<close>. When formatting or writing raises,
  the file holds the lines written before.
\<close>

definition save_to_text ::
  "(pyval \<Rightarrow> error + pystr) \<Rightarrow> text_fs \<Rightarrow> Library \<Rightarrow> pystr \<Rightarrow> (error + unit) \<times> text_fs" where
  "save_to_text repr_other fs lib filename =
     (let name = filename @ str ''.txt'' in
      (case format_val repr_other (next_id lib) of Inl e \<Rightarrow> (Inl e, fs(name \<mapsto> [])) | Inr h \<Rightarrow>
        (case f_write [] (h @ [10]) of Inl e \<Rightarrow> (Inl e, fs(name \<mapsto> [])) | Inr content \<Rightarrow>
          (case write_books (books lib) content of (r, content') \<Rightarrow>
             (r, fs(name \<mapsto> content'))))))"

subsection \<open>Parsing\<close>

text \<open>
  A file opened in text mode is read with universal newlines: \<^verbatim>\<open>\r\n\<close> and a lone \<^verbatim>\<open>\r\<close>
  arrive as \<^verbatim>\<open>\n\<close>. \<^verbatim>\<open>readlines\<close> then cuts after every \<^verbatim>\<open>\n\<close> and keeps it.
\<close>

fun universal_newlines :: "pystr \<Rightarrow> pystr" where
  "universal_newlines [] = []"
| "universal_newlines [c] = [if c = 13 then 10 else c]"
| "universal_newlines (c # d # cs) =
     (if c = 13 \<and> d = 10 then 10 # universal_newlines cs
      else if c = 13 then 10 # universal_newlines (d # cs)
      else c # universal_newlines (d # cs))"

fun cut_lines :: "pystr \<Rightarrow> pystr \<Rightarrow> pystr list" where
  "cut_lines cur [] = (if cur = [] then [] else [cur])"
| "cut_lines cur (c # cs) =
     (if c = 10 then (cur @ [c]) # cut_lines [] cs else cut_lines (cur @ [c]) cs)"

definition readlines :: "pystr \<Rightarrow> pystr list" where
  "readlines content = cut_lines [] (universal_newlines content)"

text \<open>\<^verbatim>\<open>s.strip()\<close> and \<^verbatim>\<open>s.split(sep)\<close> for a one-character separator.\<close>

definition strip :: "pystr \<Rightarrow> pystr" where
  "strip s = rev (dropWhile isspace_cp (rev (dropWhile isspace_cp s)))"

fun split_acc :: "nat \<Rightarrow> pystr \<Rightarrow> pystr \<Rightarrow> pystr list" where
  "split_acc sep cur [] = [cur]"
| "split_acc sep cur (c # cs) =
     (if c = sep then cur # split_acc sep [] cs else split_acc sep (cur @ [c]) cs)"

definition split :: "pystr \<Rightarrow> nat \<Rightarrow> pystr list" where
  "split s sep = split_acc sep [] s"

text \<open>
  \<^verbatim>\<open>int(s)\<close> for a string, as CPython does it. First every character beyond ASCII is
  replaced: white space by a blank, a decimal digit of any script by its ASCII digit;
  any other such character is an error. Then: optional white space (of C's
  \<^verbatim>\<open>isspace\<close>), an optional sign, digits with single underscores between them, optional
  white space, end. More than \<open>max_str_digits\<close> digits, underscores not counted, are
  refused.
\<close>

definition to_ascii :: "nat \<Rightarrow> nat option" where
  "to_ascii c =
     (if c < 127 then Some c
      else if isspace_cp c then Some 32
      else map_option (\<lambda>d. 48 + d) (decimal_cp c))"

fun those_ascii :: "pystr \<Rightarrow> pystr option" where
  "those_ascii [] = Some []"
| "those_ascii (c # cs) =
     (case to_ascii c of None \<Rightarrow> None
      | Some a \<Rightarrow> (case those_ascii cs of None \<Rightarrow> None | Some as \<Rightarrow> Some (a # as)))"

definition c_isspace :: "nat \<Rightarrow> bool" where
  "c_isspace c = (c = 32 \<or> (9 \<le> c \<and> c \<le> 13))"

definition ascii_digit :: "nat \<Rightarrow> bool" where
  "ascii_digit c = (48 \<le> c \<and> c \<le> 57)"

fun parse_digits :: "pystr \<Rightarrow> nat \<Rightarrow> nat option" where
  "parse_digits [] acc = Some acc"
| "parse_digits [c] acc = (if ascii_digit c then Some (acc * 10 + (c - 48)) else None)"
| "parse_digits (c # d # cs) acc =
     (if c = 95 then
        (if ascii_digit d then parse_digits cs (acc * 10 + (d - 48)) else None)
      else if ascii_digit c then parse_digits (d # cs) (acc * 10 + (c - 48))
      else None)"

fun parse_number :: "pystr \<Rightarrow> nat option" where
  "parse_number [] = None"
| "parse_number (c # cs) = (if ascii_digit c then parse_digits cs (c - 48) else None)"

definition py_int :: "pystr \<Rightarrow> error + int" where
  "py_int s =
     (case those_ascii s of None \<Rightarrow> Inl ValueError | Some a \<Rightarrow>
       (let b = dropWhile c_isspace a;
            neg = (b \<noteq> [] \<and> hd b = 45);
            c = (if b \<noteq> [] \<and> (hd b = 45 \<or> hd b = 43) then tl b else b);
            body = rev (dropWhile c_isspace (rev c))
        in (case parse_number body of
              None \<Rightarrow> Inl ValueError
            | Some n \<Rightarrow>
                if max_str_digits < length (filter ascii_digit body) then Inl ValueError
                else Inr (if neg then - int n else int n))))"

text \<open>\<^verbatim>\<open>parts[i]\<close>: an index beyond the list raises.\<close>

definition index :: "'a list \<Rightarrow> nat \<Rightarrow> error + 'a" where
  "index xs i = (if i < length xs then Inr (xs ! i) else Inl IndexError)"

text \<open>
  The body of the loop of \<^verbatim>\<open>load_from_text\<close> for one line, up to the append: the
  arguments \<^verbatim>\<open>parts[1]\<close>, \<^verbatim>\<open>parts[2]\<close>, \<^verbatim>\<open>int(parts[3])\<close> in this order, the constructor,
  then the id from \<^verbatim>\<open>parts[0]\<close>, then the status from \<^verbatim>\<open>parts[4]\<close>.
\<close>

definition parse_line :: "pystr \<Rightarrow> error + Book" where
  "parse_line line =
     (let parts = split (strip line) 124 in
      (case index parts 1 of Inl e \<Rightarrow> Inl e | Inr t \<Rightarrow>
        (case index parts 2 of Inl e \<Rightarrow> Inl e | Inr a \<Rightarrow>
          (case index parts 3 of Inl e \<Rightarrow> Inl e | Inr ys \<Rightarrow>
            (case py_int ys of Inl e \<Rightarrow> Inl e | Inr y \<Rightarrow>
              (case Book_init (PStr t) (PStr a) (PInt y) of Inl e \<Rightarrow> Inl e | Inr book \<Rightarrow>
                (case index parts 0 of Inl e \<Rightarrow> Inl e | Inr ks \<Rightarrow>
                  (case py_int ks of Inl e \<Rightarrow> Inl e | Inr i \<Rightarrow>
                    (case id_setter (PInt i) of Inl e \<Rightarrow> Inl e | Inr i' \<Rightarrow>
                      (case index parts 4 of Inl e \<Rightarrow> Inl e | Inr s \<Rightarrow>
                        (case status_setter (PStr s) of Inl e \<Rightarrow> Inl e | Inr s' \<Rightarrow>
                           Inr (book\<lparr>id_book := i', status := s'\<rparr>))))))))))))"

text \<open>The loop: each parsed book is appended to \<open>books\<close> at once.\<close>

fun text_loop :: "pystr list \<Rightarrow> Library \<Rightarrow> (error + unit) \<times> Library" where
  "text_loop [] lib = (Inr (), lib)"
| "text_loop (line # ls) lib =
     (case parse_line line of
        Inl e \<Rightarrow> (Inl e, lib)
      | Inr book \<Rightarrow> text_loop ls (lib\<lparr>books := books lib @ [book]\<rparr>))"

text \<open>
  \<^verbatim>\<open>load_from_text\<close>: \<open>next_id\<close> is assigned from the first line, \<open>books\<close> is emptied,
  then the loop runs.
\<close>

definition load_from_text :: "text_fs \<Rightarrow> Library \<Rightarrow> pystr \<Rightarrow> (error + unit) \<times> Library" where
  "load_from_text fs lib filename =
     (case fs (filename @ str ''.txt'') of
        None \<Rightarrow> (Inl FileNotFoundError, lib)
      | Some content \<Rightarrow>
         (let lines = readlines content in
          (case index lines 0 of Inl e \<Rightarrow> (Inl e, lib) | Inr first \<Rightarrow>
            (case py_int (strip first) of Inl e \<Rightarrow> (Inl e, lib) | Inr n \<Rightarrow>
               text_loop (tl lines) (lib\<lparr>next_id := PInt n, books := []\<rparr>)))))"

text \<open>The book \<^verbatim>\<open>change_status\<close> leaves in place of a book whose status is set.\<close>

definition toggled :: "Book \<Rightarrow> Book" where
  "toggled book =
     book\<lparr>status := Some (if status book = Some STATUS_YES then STATUS_NO else STATUS_YES)\<rparr>"

text \<open>The example of the specification: two books added to a new library.\<close>

definition dune :: Book where
  "dune = \<lparr>title = str ''Dune'', author = str ''Frank Herbert'', year = IntV 1965,
            id_book = Some (IntV 1), status = Some STATUS_YES\<rparr>"

definition foundation :: Book where
  "foundation = \<lparr>title = str ''Foundation'', author = str ''Isaac Asimov'', year = IntV 1951,
                  id_book = Some (IntV 2), status = Some STATUS_YES\<rparr>"

definition example_library :: Library where
  "example_library = \<lparr>books = [dune, foundation], next_id = PInt 3\<rparr>"

text \<open>
  A trace continuing the example: two books are added, the first is removed, an add
  with an author of digits is refused, and a third book is added.
\<close>

definition example_calls :: "call list" where
  "example_calls =
     [Add (PStr (str ''Dune'')) (PStr (str ''Frank Herbert'')) (PInt 1965),
      Add (PStr (str ''Foundation'')) (PStr (str ''Isaac Asimov'')) (PInt 1951),
      Remove 1,
      Add (PStr (str ''Salome'')) (PStr (str ''1234'')) (PInt 1891),
      ChangeStatus 2,
      Add (PStr (str ''Salome'')) (PStr (str ''O. Wilde'')) (PInt 1891)]"

definition salome :: Book where
  "salome = \<lparr>title = str ''Salome'', author = str ''O. Wilde'', year = IntV 1891,
              id_book = Some (IntV 3), status = Some STATUS_YES\<rparr>"

text \<open>
  A text file that \<^verbatim>\<open>load_from_text\<close> accepts although its only record has an id above
  the \<open>next_id\<close> of its first line.
\<close>

definition unchecked_ids_file :: pystr where
  "unchecked_ids_file =
     str ''1'' @ [10] @ str ''5|Dune|Frank Herbert|1965|'' @ STATUS_YES @ [10]"

text \<open>
  What the setters guarantee of a book's fields, and what makes a book safe for the
  text format: an integer id and year (not \<^verbatim>\<open>None\<close>, not a \<^verbatim>\<open>bool\<close>), a status, and a
  title and an author free of \<^verbatim>\<open>|\<close> (124), line feed (10) and carriage return (13).
\<close>

definition valid_fields :: "Book \<Rightarrow> bool" where
  "valid_fields book =
     (\<not> isdigit (author book) \<and>
      (status book = None \<or> status book = Some STATUS_YES \<or> status book = Some STATUS_NO))"

definition text_safe :: "Book \<Rightarrow> bool" where
  "text_safe book =
     ((case id_book book of Some (IntV i) \<Rightarrow> True | _ \<Rightarrow> False) \<and>
      (case year book of IntV y \<Rightarrow> True | _ \<Rightarrow> False) \<and>
      (status book = Some STATUS_YES \<or> status book = Some STATUS_NO) \<and>
      \<not> isdigit (author book) \<and>
      list_all (\<lambda>c. c \<noteq> 124 \<and> c \<noteq> 10 \<and> c \<noteq> 13) (title book @ author book))"

text \<open>
  What lets a book be written to a file: integers short enough to print, and a
  title and an author without surrogates.
\<close>

fun short_pyint :: "pyint \<Rightarrow> bool" where
  "short_pyint (IntV n) = short_int n"
| "short_pyint (BoolV b) = True"

definition writable :: "Book \<Rightarrow> bool" where
  "writable book =
     ((case id_book book of None \<Rightarrow> True | Some i \<Rightarrow> short_pyint i) \<and>
      short_pyint (year book) \<and> encodable (title book) \<and> encodable (author book))"

text \<open>The value of a string of ASCII digits, digit by digit.\<close>

definition dstep :: "nat \<Rightarrow> nat \<Rightarrow> nat" where
  "dstep acc c = acc * 10 + (c - 48)"

text \<open>
  A text file whose second record line is malformed, and a JSON document without
  its \<open>books\<close>.
\<close>

definition partial_file :: pystr where
  "partial_file = str ''7'' @ [10] @ str ''5|Dune|Frank Herbert|1965|'' @ STATUS_YES @ [10] @
     str ''bad'' @ [10]"

definition partial_document :: pyval where
  "partial_document = PDict [(str ''next_id'', PInt 7)]"

text \<open>
  A library holding one book whose title contains the separator of the text format.
  \<open>repr_unused\<close> stands for the renderings \<^verbatim>\<open>save_to_text\<close> does not need here.
\<close>

definition repr_unused :: "pyval \<Rightarrow> error + pystr" where
  "repr_unused v = Inr []"

definition pipe_book :: Book where
  "pipe_book = \<lparr>title = str ''a|b'', author = str ''c'', year = IntV 1,
                 id_book = Some (IntV 1), status = Some STATUS_YES\<rparr>"

definition pipe_library :: Library where
  "pipe_library = \<lparr>books = [pipe_book], next_id = PInt 2\<rparr>"

text \<open>
  Two more libraries that \<^verbatim>\<open>add_book\<close> makes of valid input: one whose title is a lone
  surrogate, one whose year has 4301 digits.
\<close>

definition surrogate_book :: Book where
  "surrogate_book = \<lparr>title = [56448], author = str ''c'', year = IntV 1,
                      id_book = Some (IntV 1), status = Some STATUS_YES\<rparr>"

definition surrogate_library :: Library where
  "surrogate_library = \<lparr>books = [surrogate_book], next_id = PInt 2\<rparr>"

definition huge :: int where
  "huge = 10 ^ 4300"

definition huge_book :: Book where
  "huge_book = \<lparr>title = str ''a'', author = str ''c'', year = IntV huge,
                 id_book = Some (IntV 1), status = Some STATUS_YES\<rparr>"

definition huge_library :: Library where
  "huge_library = \<lparr>books = [huge_book], next_id = PInt 2\<rparr>"

section \<open>Properties of Book and of the catalog operations\<close>

lemma isdigit_Nil: "\<not> isdigit []"
  by (simp add: isdigit_def)

lemma STATUS_distinct: "STATUS_YES \<noteq> STATUS_NO"
  by (simp add: STATUS_YES_def STATUS_NO_def)

lemma Book_init_Inr_iff:
  "Book_init t a y = Inr b \<longleftrightarrow>
     (\<exists>ts as y'. t = PStr ts \<and> a = PStr as \<and> \<not> isdigit as \<and> as_pyint y = Some y' \<and>
        b = \<lparr>title = ts, author = as, year = y', id_book = None, status = None\<rparr>)"
  by (cases t; cases a; cases "as_pyint y") (auto simp: Book_init_def year_setter_def)

lemma Book_init_error: "Book_init t a y = Inl e \<Longrightarrow> e = ValueError"
  by (cases t; cases a; cases "as_pyint y")
     (auto simp: Book_init_def year_setter_def split: if_splits)

lemma id_setter_pyint: "as_pyint v = Some n \<Longrightarrow> id_setter v = Inr (Some n)"
  by (cases v) (simp_all add: id_setter_def)

lemma Library_update_eq: "lib\<lparr>books := bs, next_id := k\<rparr> = \<lparr>books = bs, next_id = k\<rparr>"
  by (cases lib) simp

text \<open>
  C3. On a library whose \<open>next_id\<close> is an integer, \<^verbatim>\<open>add_book\<close> with a string title, a
  string author that \<^verbatim>\<open>isdigit\<close> does not reject and an integer year succeeds: the book
  returned carries the three fields, the old \<open>next_id\<close> as its id and the status
  \<open>STATUS_YES\<close>; it is appended at the end of \<open>books\<close>, and \<open>next_id\<close> has grown by one.
\<close>

theorem add_book_valid:
  assumes "\<not> isdigit a" and "as_pyint y = Some y'" and "as_pyint (next_id lib) = Some n"
  shows "add_book lib (PStr t) (PStr a) y =
    (Inr \<lparr>title = t, author = a, year = y', id_book = Some n, status = Some STATUS_YES\<rparr>,
     \<lparr>books = books lib @
        [\<lparr>title = t, author = a, year = y', id_book = Some n, status = Some STATUS_YES\<rparr>],
      next_id = PInt (int_val n + 1)\<rparr>)"
proof -
  have "Book_init (PStr t) (PStr a) y =
      Inr \<lparr>title = t, author = a, year = y', id_book = None, status = None\<rparr>"
    using assms(1,2) by (simp add: Book_init_Inr_iff)
  then show ?thesis
    by (simp add: add_book_def id_setter_pyint[OF assms(3)] Let_def Library_update_eq)
qed

theorem add_book_valid_witness:
  "\<not> isdigit (str ''Frank Herbert'') \<and> as_pyint (PInt 1965) = Some (IntV 1965) \<and>
   as_pyint (next_id Library_init) = Some (IntV 1) \<and>
   add_book Library_init (PStr (str ''Dune'')) (PStr (str ''Frank Herbert'')) (PInt 1965) =
    (Inr \<lparr>title = str ''Dune'', author = str ''Frank Herbert'', year = IntV 1965,
          id_book = Some (IntV 1), status = Some STATUS_YES\<rparr>,
     \<lparr>books = [\<lparr>title = str ''Dune'', author = str ''Frank Herbert'', year = IntV 1965,
          id_book = Some (IntV 1), status = Some STATUS_YES\<rparr>],
      next_id = PInt 2\<rparr>)"
proof -
  have h1: "\<not> isdigit (str ''Frank Herbert'')"
    by (simp add: isdigit_def str_def isdigit_cp_def decimal_cp_def decimal_zeros_def
        other_digit_ranges_def)
  have h2: "as_pyint (PInt 1965) = Some (IntV 1965)" by simp
  have h3: "as_pyint (next_id Library_init) = Some (IntV 1)"
    by (simp add: Library_init_def)
  show ?thesis
    using h1 h2 h3 add_book_valid[OF h1 h2 h3, of "str ''Dune''"]
    by (simp add: Library_init_def)
qed

text \<open>
  C4. When the title is not a string, or the author is not a string or is a string of
  digits only, or the year is not an integer, the constructor raises \<^verbatim>\<open>ValueError\<close>,
  \<^verbatim>\<open>add_book\<close> raises the same, and the library is left as it was.
\<close>

theorem add_book_invalid:
  assumes "(\<forall>s. t \<noteq> PStr s) \<or> (\<forall>s. a \<noteq> PStr s) \<or> (\<exists>s. a = PStr s \<and> isdigit s) \<or>
           as_pyint y = None"
  shows "Book_init t a y = Inl ValueError \<and> add_book lib t a y = (Inl ValueError, lib)"
proof -
  have "\<not> (\<exists>b. Book_init t a y = Inr b)"
    using assms unfolding Book_init_Inr_iff by auto
  then obtain e where "Book_init t a y = Inl e"
    by (cases "Book_init t a y") auto
  with Book_init_error have "Book_init t a y = Inl ValueError" by blast
  then show ?thesis by (simp add: add_book_def)
qed

theorem add_book_invalid_witness:
  "isdigit (str ''1234'') \<and>
   Book_init (PStr (str ''Dune'')) (PStr (str ''1234'')) (PInt 1965) = Inl ValueError \<and>
   add_book Library_init (PStr (str ''Dune'')) (PStr (str ''1234'')) (PInt 1965) =
     (Inl ValueError, Library_init)"
proof -
  have h: "isdigit (str ''1234'')"
    by (simp add: isdigit_def str_def isdigit_cp_def decimal_cp_def decimal_zeros_def)
  then have "(\<forall>s. PStr (str ''Dune'') \<noteq> PStr s) \<or> (\<forall>s. PStr (str ''1234'') \<noteq> PStr s) \<or>
      (\<exists>s. PStr (str ''1234'') = PStr s \<and> isdigit s) \<or> as_pyint (PInt 1965) = None"
    by simp
  from add_book_invalid[OF this] h show ?thesis by simp
qed

text \<open>
  C10. \<^verbatim>\<open>isdigit\<close> is false of the empty string, so the constructor accepts an empty
  author with any string title and integer year, and \<^verbatim>\<open>add_book\<close> admits the book.
\<close>

theorem empty_author_accepted:
  "Book_init (PStr t) (PStr []) (PInt y) =
     Inr \<lparr>title = t, author = [], year = IntV y, id_book = None, status = None\<rparr> \<and>
   add_book \<lparr>books = bs, next_id = PInt n\<rparr> (PStr t) (PStr []) (PInt y) =
     (Inr \<lparr>title = t, author = [], year = IntV y, id_book = Some (IntV n),
           status = Some STATUS_YES\<rparr>,
      \<lparr>books = bs @ [\<lparr>title = t, author = [], year = IntV y, id_book = Some (IntV n),
           status = Some STATUS_YES\<rparr>],
       next_id = PInt (n + 1)\<rparr>)"
proof -
  have "Book_init (PStr t) (PStr []) (PInt y) =
     Inr \<lparr>title = t, author = [], year = IntV y, id_book = None, status = None\<rparr>"
    by (simp add: Book_init_Inr_iff isdigit_Nil)
  then show ?thesis
    by (simp add: add_book_def id_setter_def Let_def)
qed

theorem empty_author_accepted_witness:
  "add_book Library_init (PStr (str ''Dune'')) (PStr []) (PInt 1965) =
     (Inr \<lparr>title = str ''Dune'', author = [], year = IntV 1965, id_book = Some (IntV 1),
           status = Some STATUS_YES\<rparr>,
      \<lparr>books = [\<lparr>title = str ''Dune'', author = [], year = IntV 1965, id_book = Some (IntV 1),
           status = Some STATUS_YES\<rparr>],
       next_id = PInt 2\<rparr>)"
  using empty_author_accepted[of "str ''Dune''" 1965 "[]" 1]
  by (simp add: Library_init_def)

lemma find_loop_filter: "find_loop t a y bs result = result @ filter (matches t a y) bs"
  by (induction bs arbitrary: result) simp_all

text \<open>
  C7. Without criteria \<^verbatim>\<open>find_books\<close> returns \<open>books\<close> as it is; with criteria it returns
  the books, in the order of \<open>books\<close>, whose every supplied field equals the criterion
  (for the year as Python's \<^verbatim>\<open>==\<close> compares integers).
\<close>

theorem find_books_spec:
  "find_books lib None None None = books lib \<and>
   find_books lib t a y =
     filter (\<lambda>b. (\<forall>x. t = Some x \<longrightarrow> title b = x) \<and> (\<forall>x. a = Some x \<longrightarrow> author b = x) \<and>
                 (\<forall>k. y = Some k \<longrightarrow> int_val (year b) = k)) (books lib)"
proof -
  have "matches t a y =
      (\<lambda>b. (\<forall>x. t = Some x \<longrightarrow> title b = x) \<and> (\<forall>x. a = Some x \<longrightarrow> author b = x) \<and>
           (\<forall>k. y = Some k \<longrightarrow> int_val (year b) = k))"
    by (cases t; cases a; cases y) (auto simp: matches_def fun_eq_iff)
  moreover have "filter (matches None None None) (books lib) = books lib"
    by (simp add: matches_def)
  ultimately show ?thesis
    by (simp add: find_books_def find_loop_filter)
qed

theorem find_books_spec_witness:
  "find_books example_library None None None = [dune, foundation] \<and>
   find_books example_library None (Some (str ''Isaac Asimov'')) None = [foundation]"
  using find_books_spec[of example_library None "Some (str ''Isaac Asimov'')" None]
  by (simp add: example_library_def dune_def foundation_def str_def)

lemma change_status_loop_absent:
  "\<forall>b \<in> set bs. \<not> id_eq (id_book b) i \<Longrightarrow> change_status_loop bs i = (Inr False, bs)"
  by (induction bs) simp_all

lemma change_status_loop_at:
  assumes "\<forall>x \<in> set pre. \<not> id_eq (id_book x) i" and "id_eq (id_book b) i"
    and "status b = Some STATUS_YES \<or> status b = Some STATUS_NO"
  shows "change_status_loop (pre @ b # post) i = (Inr True, pre @ toggled b # post)"
  using assms by (induction pre) (auto simp: toggled_def STATUS_distinct)

lemma find_split:
  "List.find P bs = Some b \<Longrightarrow> \<exists>pre post. bs = pre @ b # post \<and> (\<forall>x \<in> set pre. \<not> P x) \<and> P b"
proof (induction bs)
  case Nil
  then show ?case by simp
next
  case (Cons x xs)
  show ?case
  proof (cases "P x")
    case True
    with Cons.prems have "x # xs = [] @ b # xs \<and> (\<forall>x \<in> set []. \<not> P x) \<and> P b" by simp
    then show ?thesis by blast
  next
    case False
    with Cons obtain pre post where "xs = pre @ b # post" "\<forall>x \<in> set pre. \<not> P x" "P b"
      by auto
    with False have "x # xs = (x # pre) @ b # post \<and> (\<forall>y \<in> set (x # pre). \<not> P y) \<and> P b"
      by simp
    then show ?thesis by blast
  qed
qed

lemma find_at:
  assumes "\<forall>x \<in> set pre. \<not> P x" and "P b"
  shows "List.find P (pre @ b # post) = Some b"
  using assms by (induction pre) auto

lemma toggled_twice:
  "status b = Some STATUS_YES \<or> status b = Some STATUS_NO \<Longrightarrow> toggled (toggled b) = b"
  by (cases b) (auto simp: toggled_def STATUS_distinct)

lemma toggled_status:
  "status (toggled b) = Some STATUS_YES \<or> status (toggled b) = Some STATUS_NO"
  by (simp add: toggled_def)

text \<open>
  C8. When the first book with the id has its status set, \<^verbatim>\<open>change_status\<close> returns
  \<^verbatim>\<open>True\<close> and leaves that book with the other status, and a second call returns
  \<^verbatim>\<open>True\<close> and restores the whole library. When no book has the id, it returns
  \<^verbatim>\<open>False\<close> and the library is unchanged.
\<close>

theorem change_status_twice:
  "(List.find (\<lambda>b. id_eq (id_book b) i) (books lib) = Some b \<and>
      (status b = Some STATUS_YES \<or> status b = Some STATUS_NO) \<longrightarrow>
      fst (change_status lib i) = Inr True \<and>
      List.find (\<lambda>b. id_eq (id_book b) i) (books (snd (change_status lib i))) =
        Some (b\<lparr>status := Some (if status b = Some STATUS_YES then STATUS_NO else STATUS_YES)\<rparr>) \<and>
      change_status (snd (change_status lib i)) i = (Inr True, lib)) \<and>
   ((\<forall>b \<in> set (books lib). \<not> id_eq (id_book b) j) \<longrightarrow> change_status lib j = (Inr False, lib))"
proof (intro conjI impI)
  assume "\<forall>b \<in> set (books lib). \<not> id_eq (id_book b) j"
  then show "change_status lib j = (Inr False, lib)"
    by (simp add: change_status_def change_status_loop_absent)
next
  assume a: "List.find (\<lambda>b. id_eq (id_book b) i) (books lib) = Some b \<and>
      (status b = Some STATUS_YES \<or> status b = Some STATUS_NO)"
  then obtain pre post where
    p: "books lib = pre @ b # post" "\<forall>x \<in> set pre. \<not> id_eq (id_book x) i" "id_eq (id_book b) i"
    using find_split[of "\<lambda>b. id_eq (id_book b) i" "books lib" b] by blast
  have idt: "id_eq (id_book (toggled b)) i"
    using p(3) by (simp add: toggled_def)
  have first: "change_status lib i = (Inr True, lib\<lparr>books := pre @ toggled b # post\<rparr>)"
    using a by (simp add: change_status_def p(1) change_status_loop_at[OF p(2,3)])
  have second: "change_status_loop (pre @ toggled b # post) i = (Inr True, pre @ b # post)"
    using change_status_loop_at[OF p(2) idt toggled_status, of post] a
    by (simp add: toggled_twice)
  show "fst (change_status lib i) = Inr True"
    by (simp add: first)
  show "List.find (\<lambda>b. id_eq (id_book b) i) (books (snd (change_status lib i))) =
        Some (b\<lparr>status := Some (if status b = Some STATUS_YES then STATUS_NO else STATUS_YES)\<rparr>)"
    using find_at[of pre "\<lambda>b. id_eq (id_book b) i" "toggled b" post] p(2) idt
    by (simp add: first toggled_def)
  have "change_status (lib\<lparr>books := pre @ toggled b # post\<rparr>) i =
      (Inr True, lib\<lparr>books := pre @ b # post\<rparr>)"
    by (simp add: change_status_def second)
  moreover have "lib\<lparr>books := pre @ b # post\<rparr> = lib"
    using p(1) by (cases lib) simp
  ultimately show "change_status (snd (change_status lib i)) i = (Inr True, lib)"
    by (simp add: first)
qed

theorem change_status_twice_witness:
  "List.find (\<lambda>b. id_eq (id_book b) 2) (books example_library) = Some foundation \<and>
   status foundation = Some STATUS_YES \<and>
   fst (change_status example_library 2) = Inr True \<and>
   books (snd (change_status example_library 2)) = [dune, foundation\<lparr>status := Some STATUS_NO\<rparr>] \<and>
   change_status (snd (change_status example_library 2)) 2 = (Inr True, example_library) \<and>
   list_all (\<lambda>b. \<not> id_eq (id_book b) 7) (books example_library) \<and>
   change_status example_library 7 = (Inr False, example_library)"
proof -
  have h1: "List.find (\<lambda>b. id_eq (id_book b) 2) (books example_library) = Some foundation"
    by (simp add: example_library_def dune_def foundation_def)
  have h2: "status foundation = Some STATUS_YES"
    by (simp add: foundation_def)
  have h3: "\<forall>b \<in> set (books example_library). \<not> id_eq (id_book b) 7"
    by (simp add: example_library_def dune_def foundation_def)
  have "books (snd (change_status example_library 2)) =
      [dune, foundation\<lparr>status := Some STATUS_NO\<rparr>]"
    by (simp add: change_status_def example_library_def dune_def foundation_def)
  then show ?thesis
    using h1 h2 h3 change_status_twice[of 2 example_library foundation 7]
    by (simp add: list_all_iff)
qed

section \<open>Identifiers\<close>

lemma add_book_cases:
  assumes "next_id lib = PInt n"
  shows "add_book lib t a y = (Inl ValueError, lib) \<or>
     (\<exists>b. id_book b = Some (IntV n) \<and>
        add_book lib t a y = (Inr b, lib\<lparr>books := books lib @ [b], next_id := PInt (n + 1)\<rparr>))"
proof (cases "Book_init t a y")
  case (Inl e)
  with Book_init_error[OF Inl] show ?thesis
    by (simp add: add_book_def)
next
  case (Inr b)
  then show ?thesis using assms
    by (simp add: add_book_def id_setter_def Let_def)
qed

lemma next_id_remove: "next_id (snd (remove_book lib i)) = next_id lib"
  by (simp add: remove_book_def Let_def)

lemma change_status_loop_ids:
  "map id_book (snd (change_status_loop bs i)) = map id_book bs"
  by (induction bs) (auto split: prod.splits)

lemma next_id_change_status: "next_id (snd (change_status lib i)) = next_id lib"
  by (simp add: change_status_def split: prod.splits)

lemma ids_change_status: "map id_book (books (snd (change_status lib i))) = map id_book (books lib)"
  using change_status_loop_ids[of "books lib" i]
  by (cases "change_status_loop (books lib) i") (simp add: change_status_def)

lemma ids_remove:
  "subseq (map id_book (books (snd (remove_book lib i)))) (map id_book (books lib))"
  by (simp add: remove_book_def Let_def subseq_map)

lemma run_ids:
  "next_id lib = PInt n \<Longrightarrow> run cs lib = (ids, lib') \<Longrightarrow>
     ids = map (\<lambda>k. Some (IntV k)) [n..n + int (length ids) - 1] \<and>
     next_id lib' = PInt (n + int (length ids)) \<and>
     subseq (map id_book (books lib')) (map id_book (books lib) @ ids)"
proof (induction cs lib arbitrary: n ids lib' rule: run.induct)
  case (1 lib)
  then show ?case by simp
next
  case (2 t a y cs lib)
  from add_book_cases[OF "2.prems"(1), of t a y]
  show ?case
  proof
    assume f: "add_book lib t a y = (Inl ValueError, lib)"
    with "2.prems" have "run cs lib = (ids, lib')" by simp
    from "2.IH"(1)[OF f[symmetric] refl "2.prems"(1) this] show ?thesis .
  next
    assume "\<exists>b. id_book b = Some (IntV n) \<and>
      add_book lib t a y = (Inr b, lib\<lparr>books := books lib @ [b], next_id := PInt (n + 1)\<rparr>)"
    then obtain b where b: "id_book b = Some (IntV n)"
      "add_book lib t a y = (Inr b, lib\<lparr>books := books lib @ [b], next_id := PInt (n + 1)\<rparr>)"
      by blast
    let ?l = "lib\<lparr>books := books lib @ [b], next_id := PInt (n + 1)\<rparr>"
    obtain ids' where r: "run cs ?l = (ids', lib')" and ids: "ids = Some (IntV n) # ids'"
      using "2.prems"(2) b by (auto split: prod.splits)
    have "next_id ?l = PInt (n + 1)" by simp
    from "2.IH"(2)[OF b(2)[symmetric] refl this r]
    have ih: "ids' = map (\<lambda>k. Some (IntV k)) [n + 1..n + 1 + int (length ids') - 1]"
      "next_id lib' = PInt (n + 1 + int (length ids'))"
      "subseq (map id_book (books lib')) (map id_book (books ?l) @ ids')" by auto
    have "[n..n + int (length ids')] = n # [n + 1..n + int (length ids')]"
      by (simp add: upto_rec1)
    with ih ids b(1) show ?thesis by (simp add: add.commute add.left_commute)
  qed
next
  case (3 i cs lib)
  let ?l = "snd (remove_book lib i)"
  from 3 have ih: "ids = map (\<lambda>k. Some (IntV k)) [n..n + int (length ids) - 1]"
    "next_id lib' = PInt (n + int (length ids))"
    "subseq (map id_book (books lib')) (map id_book (books ?l) @ ids)"
    by (simp_all add: next_id_remove)
  have "subseq (map id_book (books ?l) @ ids) (map id_book (books lib) @ ids)"
    using ids_remove[of lib i] by (simp add: list_emb_append_mono)
  with ih(3) have "subseq (map id_book (books lib')) (map id_book (books lib) @ ids)"
    using subseq_order.order_trans by blast
  with ih show ?case by simp
next
  case (4 i cs lib)
  then show ?case by (simp add: next_id_change_status ids_change_status)
qed

text \<open>
  C6. Whatever calls of \<^verbatim>\<open>add_book\<close>, \<^verbatim>\<open>remove_book\<close> and \<^verbatim>\<open>change_status\<close> are made on a
  new library, the ids of the books returned by the successful adds are 1, 2, 3, ...
  in this order (so pairwise different, and none is issued again after a removal),
  \<open>next_id\<close> ends one above their number, and the ids of the books left in the library
  are a subsequence of them.
\<close>

theorem issued_ids_fresh:
  assumes "run cs Library_init = (ids, lib)"
  shows "ids = map (\<lambda>k. Some (IntV k)) [1..int (length ids)] \<and> distinct ids \<and>
     next_id lib = PInt (int (length ids) + 1) \<and>
     subseq (map id_book (books lib)) ids"
proof -
  have "next_id Library_init = PInt 1" by (simp add: Library_init_def)
  from run_ids[OF this assms]
  have r: "ids = map (\<lambda>k. Some (IntV k)) [1..int (length ids)]"
    "next_id lib = PInt (int (length ids) + 1)" "subseq (map id_book (books lib)) ids"
    by (simp_all add: Library_init_def add.commute)
  have "inj (\<lambda>k. Some (IntV k))" by (simp add: inj_def)
  then have "distinct (map (\<lambda>k. Some (IntV k)) [1..int (length ids)])"
    by (simp add: distinct_map inj_on_def)
  with r show ?thesis by metis
qed


lemma isdigit_1234: "isdigit (str ''1234'')"
  by (simp add: isdigit_def str_def isdigit_cp_def decimal_cp_def decimal_zeros_def)

lemma not_isdigit_names:
  "\<not> isdigit (str ''Frank Herbert'')" "\<not> isdigit (str ''Isaac Asimov'')"
  "\<not> isdigit (str ''O. Wilde'')"
  by (simp_all add: isdigit_def str_def isdigit_cp_def decimal_cp_def decimal_zeros_def
        other_digit_ranges_def)

theorem issued_ids_fresh_witness:
  "run example_calls Library_init =
     ([Some (IntV 1), Some (IntV 2), Some (IntV 3)],
      \<lparr>books = [foundation\<lparr>status := Some STATUS_NO\<rparr>, salome], next_id = PInt 4\<rparr>) \<and>
   [Some (IntV 1), Some (IntV 2), Some (IntV 3)] = map (\<lambda>k. Some (IntV k)) [1..3] \<and>
   subseq [Some (IntV 2), Some (IntV 3)] [Some (IntV 1), Some (IntV 2), Some (IntV 3)]"
proof -
  have h: "run example_calls Library_init =
     ([Some (IntV 1), Some (IntV 2), Some (IntV 3)],
      \<lparr>books = [foundation\<lparr>status := Some STATUS_NO\<rparr>, salome], next_id = PInt 4\<rparr>)"
    by (simp add: example_calls_def Library_init_def add_book_def Book_init_def year_setter_def
        id_setter_def Let_def isdigit_1234 not_isdigit_names remove_book_def change_status_def
        foundation_def salome_def)
  from issued_ids_fresh[OF h] h show ?thesis
    by (simp add: foundation_def salome_def upto_rec1)
qed

section \<open>The catalog invariant\<close>

lemma inv_init: "ids_unique_below Library_init"
  by (simp add: ids_unique_below_def Library_init_def)

lemma inv_add: 
  assumes "ids_unique_below lib" shows "ids_unique_below (snd (add_book lib t a y))"
proof (cases "Book_init t a y")
  case (Inl e)
  then show ?thesis using assms by (simp add: add_book_def)
next
  case (Inr b)
  from assms obtain n where n: "as_pyint (next_id lib) = Some n"
    by (auto simp: ids_unique_below_def split: option.splits)
  with assms Inr show ?thesis
    by (auto simp: add_book_def id_setter_pyint[OF n] Let_def ids_unique_below_def list_all_iff
        split: option.splits)
qed

lemma inv_remove:
  assumes "ids_unique_below lib" shows "ids_unique_below (snd (remove_book lib i))"
proof -
  have "map id_book (filter (\<lambda>book. \<not> id_eq (id_book book) i) (books lib)) =
      filter (\<lambda>k. \<not> id_eq k i) (map id_book (books lib))"
    by (simp add: filter_map comp_def)
  then show ?thesis
    using assms
    by (auto simp: ids_unique_below_def remove_book_def Let_def list_all_iff distinct_map_filter
      split: option.splits)
qed

lemma inv_change_status:
  assumes "ids_unique_below lib" shows "ids_unique_below (snd (change_status lib i))"
  using assms
  unfolding ids_unique_below_def next_id_change_status ids_change_status .

text \<open>
  C5 (as amended). The invariant holds of a new library and is kept by \<^verbatim>\<open>add_book\<close>,
  \<^verbatim>\<open>remove_book\<close> and \<^verbatim>\<open>change_status\<close>, whether they return or raise.
\<close>

theorem invariant_kept:
  "ids_unique_below Library_init \<and>
   (ids_unique_below lib \<longrightarrow>
      ids_unique_below (snd (add_book lib t a y)) \<and>
      ids_unique_below (snd (remove_book lib i)) \<and>
      ids_unique_below (snd (change_status lib j)))"
  using inv_init inv_add inv_remove inv_change_status by blast

theorem invariant_kept_witness:
  "ids_unique_below example_library \<and>
   ids_unique_below
     (snd (add_book example_library (PStr (str ''Salome'')) (PStr (str ''O. Wilde'')) (PInt 1891))) \<and>
   ids_unique_below (snd (remove_book example_library 1)) \<and>
   ids_unique_below (snd (change_status example_library 2))"
proof -
  have h: "ids_unique_below example_library"
    by (simp add: ids_unique_below_def example_library_def dune_def foundation_def)
  with invariant_kept[of example_library "PStr (str ''Salome'')" "PStr (str ''O. Wilde'')"
      "PInt 1891" 1 2]
  show ?thesis by simp
qed

text \<open>
  The loaders do not check what they read: \<^verbatim>\<open>load_from_text\<close> accepts
  \<open>unchecked_ids_file\<close> and leaves a library with a record of id 5 and \<open>next_id\<close> 1.
\<close>

lemmas eval_defs = str_def readlines_def index_def strip_def
  isspace_cp_def py_int_def to_ascii_def c_isspace_def ascii_digit_def parse_line_def split_def
  Book_init_def year_setter_def id_setter_def STATUS_YES_def STATUS_NO_def Let_def
  max_str_digits_def

lemma parse_line_dune5:
  "parse_line (str ''5|Dune|Frank Herbert|1965|'' @ STATUS_YES @ [10]) =
     Inr (dune\<lparr>id_book := Some (IntV 5)\<rparr>)"
  using not_isdigit_names(1)
  by (simp add: eval_defs dune_def)

lemma readlines_unchecked:
  "readlines unchecked_ids_file =
     [str ''1'' @ [10], str ''5|Dune|Frank Herbert|1965|'' @ STATUS_YES @ [10]]"
  by (simp add: unchecked_ids_file_def eval_defs)

lemma lib_txt: "str ''lib'' @ str ''.txt'' = str ''lib.txt''"
  by (simp add: str_def)

theorem load_breaks_invariant:
  "ids_unique_below Library_init \<and>
   load_from_text (Map.empty(str ''lib.txt'' \<mapsto> unchecked_ids_file)) Library_init (str ''lib'') =
     (Inr (), \<lparr>books = [dune\<lparr>id_book := Some (IntV 5)\<rparr>], next_id = PInt 1\<rparr>) \<and>
   \<not> ids_unique_below \<lparr>books = [dune\<lparr>id_book := Some (IntV 5)\<rparr>], next_id = PInt 1\<rparr>"
proof -
  have "py_int (strip (str ''1'' @ [10])) = Inr 1"
    by (simp add: eval_defs)
  then have "load_from_text (Map.empty(str ''lib.txt'' \<mapsto> unchecked_ids_file)) Library_init
      (str ''lib'') = (Inr (), \<lparr>books = [dune\<lparr>id_book := Some (IntV 5)\<rparr>], next_id = PInt 1\<rparr>)"
    by (simp add: load_from_text_def lib_txt readlines_unchecked index_def parse_line_dune5
        Library_init_def)
  moreover have "\<not> ids_unique_below \<lparr>books = [dune\<lparr>id_book := Some (IntV 5)\<rparr>], next_id = PInt 1\<rparr>"
    by (simp add: ids_unique_below_def)
  ultimately show ?thesis
    using inv_init by simp
qed

section \<open>Missing files\<close>

lemma change_status_loop_error:
  "fst (change_status_loop bs i) = Inl e \<Longrightarrow> e = ValueError"
  by (induction bs) (auto split: if_splits prod.splits)

text \<open>
  C9. When the file does not exist, either loader raises \<^verbatim>\<open>FileNotFoundError\<close> and leaves
  the library as it was. The failures of validation and of \<^verbatim>\<open>change_status\<close> are
  \<^verbatim>\<open>ValueError\<close>, a different exception.
\<close>

theorem load_missing_file:
  "(jfs (filename @ str ''.json'') = None \<longrightarrow>
      load_from_json jfs lib filename = (Inl FileNotFoundError, lib)) \<and>
   (tfs (filename @ str ''.txt'') = None \<longrightarrow>
      load_from_text tfs lib filename = (Inl FileNotFoundError, lib)) \<and>
   Book_init t a y \<noteq> Inl FileNotFoundError \<and>
   fst (change_status lib i) \<noteq> Inl FileNotFoundError"
proof -
  have "Book_init t a y \<noteq> Inl FileNotFoundError"
    using Book_init_error[of t a y FileNotFoundError] by auto
  moreover have "fst (change_status lib i) \<noteq> Inl FileNotFoundError"
    using change_status_loop_error[of "books lib" i FileNotFoundError]
    by (auto simp: change_status_def split: prod.splits)
  ultimately show ?thesis
    by (simp add: load_from_json_def load_from_text_def)
qed

theorem load_missing_file_witness:
  "load_from_json Map.empty example_library (str ''lib'') =
     (Inl FileNotFoundError, example_library) \<and>
   load_from_text Map.empty example_library (str ''lib'') =
     (Inl FileNotFoundError, example_library)"
  using load_missing_file[of Map.empty "str ''lib''" example_library Map.empty]
  by simp

section \<open>Failed loads\<close>

lemma text_loop_state:
  "text_loop ls l = (r, l') \<Longrightarrow>
     next_id l' = next_id l \<and>
     books l' = books l @ map (\<lambda>x. projr (parse_line x)) (takeWhile (\<lambda>x. \<not> isl (parse_line x)) ls) \<and>
     isl r = (\<exists>x \<in> set ls. isl (parse_line x))"
proof (induction ls arbitrary: l)
  case Nil
  then show ?case by auto
next
  case (Cons x xs)
  show ?case
  proof (cases "parse_line x")
    case (Inl e)
    with Cons.prems show ?thesis by auto
  next
    case (Inr b)
    with Cons.prems have "text_loop xs (l\<lparr>books := books l @ [b]\<rparr>) = (r, l')" by simp
    from Cons.IH[OF this] Inr show ?thesis by simp
  qed
qed

lemma text_header_failure:
  assumes "tfs (filename @ str ''.txt'') = Some content"
    and "readlines content = [] \<or> isl (py_int (strip (hd (readlines content))))"
  shows "isl (fst (load_from_text tfs lib filename)) \<and> snd (load_from_text tfs lib filename) = lib"
proof (cases "readlines content")
  case Nil
  with assms(1) show ?thesis by (simp add: load_from_text_def index_def)
next
  case (Cons first rest)
  with assms(2) obtain e where "py_int (strip first) = Inl e"
    by (cases "py_int (strip first)") auto
  with assms(1) Cons show ?thesis by (simp add: load_from_text_def index_def)
qed

lemma text_late_failure:
  assumes "tfs (filename @ str ''.txt'') = Some content" and "readlines content = first # rest"
    and "py_int (strip first) = Inr n" and "isl (fst (load_from_text tfs lib filename))"
  shows "snd (load_from_text tfs lib filename) =
     \<lparr>books = map (\<lambda>l. projr (parse_line l)) (takeWhile (\<lambda>l. \<not> isl (parse_line l)) rest),
      next_id = PInt n\<rparr>"
proof -
  let ?l0 = "lib\<lparr>next_id := PInt n, books := []\<rparr>"
  have eq: "load_from_text tfs lib filename = text_loop rest ?l0"
    using assms(1-3) by (simp add: load_from_text_def index_def)
  obtain r l' where r: "text_loop rest ?l0 = (r, l')" by (cases "text_loop rest ?l0")
  from text_loop_state[OF r] have "next_id l' = PInt n"
    "books l' = map (\<lambda>l. projr (parse_line l)) (takeWhile (\<lambda>l. \<not> isl (parse_line l)) rest)"
    by simp_all
  then have "l' = \<lparr>books = map (\<lambda>l. projr (parse_line l)) (takeWhile (\<lambda>l. \<not> isl (parse_line l)) rest),
      next_id = PInt n\<rparr>"
    by (cases l') simp
  with eq r show ?thesis by simp
qed

lemma json_header_failure:
  assumes "jfs (filename @ str ''.json'') = Some Malformed \<or>
      (jfs (filename @ str ''.json'') = Some (Document data) \<and> isl (getitem data (str ''next_id'')))"
  shows "isl (fst (load_from_json jfs lib filename)) \<and> snd (load_from_json jfs lib filename) = lib"
  using assms
  by (cases "getitem data (str ''next_id'')") (auto simp: load_from_json_def)

lemma json_late_failure:
  assumes "jfs (filename @ str ''.json'') = Some (Document data)"
    and "getitem data (str ''next_id'') = Inr v"
    and "isl (fst (load_from_json jfs lib filename))"
  shows "snd (load_from_json jfs lib filename) = lib\<lparr>next_id := v\<rparr>"
  using assms
  by (auto simp: load_from_json_def Let_def split: sum.splits)

lemma readlines_partial:
  "readlines partial_file =
     [str ''7'' @ [10], str ''5|Dune|Frank Herbert|1965|'' @ STATUS_YES @ [10], str ''bad'' @ [10]]"
  by (simp add: partial_file_def eval_defs)

lemma py_int_7: "py_int (strip (str ''7'' @ [10])) = Inr 7"
  by (simp add: eval_defs)

lemma parse_line_bad: "parse_line (str ''bad'' @ [10]) = Inl IndexError"
  by (simp add: eval_defs)

lemma load_partial_text:
  "load_from_text (Map.empty(str ''lib.txt'' \<mapsto> partial_file)) example_library (str ''lib'') =
     (Inl IndexError, \<lparr>books = [dune\<lparr>id_book := Some (IntV 5)\<rparr>], next_id = PInt 7\<rparr>)"
  by (simp add: load_from_text_def lib_txt readlines_partial index_def py_int_7 parse_line_dune5
      parse_line_bad example_library_def)

lemma lib_json: "str ''lib'' @ str ''.json'' = str ''lib.json''"
  by (simp add: str_def)

lemma load_partial_json:
  "load_from_json (Map.empty(str ''lib.json'' \<mapsto> Document partial_document)) example_library (str ''lib'') =
     (Inl KeyError, \<lparr>books = [dune, foundation], next_id = PInt 7\<rparr>)"
  by (simp add: load_from_json_def lib_json partial_document_def example_library_def str_def)

text \<open>
  A load that fails after the first line, or after \<open>next_id\<close> has been read from the
  document, leaves a changed library behind.
\<close>

theorem failed_load_changes_state:
  "load_from_text (Map.empty(str ''lib.txt'' \<mapsto> partial_file)) example_library (str ''lib'') =
     (Inl IndexError, \<lparr>books = [dune\<lparr>id_book := Some (IntV 5)\<rparr>], next_id = PInt 7\<rparr>) \<and>
   \<lparr>books = [dune\<lparr>id_book := Some (IntV 5)\<rparr>], next_id = PInt 7\<rparr> \<noteq> example_library \<and>
   load_from_json (Map.empty(str ''lib.json'' \<mapsto> Document partial_document)) example_library (str ''lib'') =
     (Inl KeyError, \<lparr>books = [dune, foundation], next_id = PInt 7\<rparr>) \<and>
   \<lparr>books = [dune, foundation], next_id = PInt 7\<rparr> \<noteq> example_library"
  using load_partial_text load_partial_json by (simp add: example_library_def)

text \<open>
  C1 (as amended). A load that fails before \<open>next_id\<close> has been read (a text file
  without lines or with a first line that is not an integer; a file that is not JSON,
  or a document that cannot be subscripted by \<open>next_id\<close>) leaves the library as it was.
  A text load that fails later leaves \<open>next_id\<close> at the value of the first line and
  \<open>books\<close> at the records of the lines before the first failing one; a JSON load that
  fails later leaves \<open>next_id\<close> at the document's value and \<open>books\<close> as it was.
\<close>

theorem failed_load_state:
  "(tfs (filename @ str ''.txt'') = Some content \<and>
      (readlines content = [] \<or> isl (py_int (strip (hd (readlines content))))) \<longrightarrow>
      isl (fst (load_from_text tfs lib filename)) \<and> snd (load_from_text tfs lib filename) = lib) \<and>
   (tfs' (filename @ str ''.txt'') = Some content' \<and> readlines content' = first # rest \<and>
      py_int (strip first) = Inr n \<and> isl (fst (load_from_text tfs' lib filename)) \<longrightarrow>
      snd (load_from_text tfs' lib filename) =
        \<lparr>books = map (\<lambda>l. projr (parse_line l)) (takeWhile (\<lambda>l. \<not> isl (parse_line l)) rest),
         next_id = PInt n\<rparr>) \<and>
   (jfs (filename @ str ''.json'') = Some Malformed \<or>
      (jfs (filename @ str ''.json'') = Some (Document data) \<and>
       isl (getitem data (str ''next_id''))) \<longrightarrow>
      isl (fst (load_from_json jfs lib filename)) \<and> snd (load_from_json jfs lib filename) = lib) \<and>
   (jfs' (filename @ str ''.json'') = Some (Document data') \<and>
      getitem data' (str ''next_id'') = Inr v \<and> isl (fst (load_from_json jfs' lib filename)) \<longrightarrow>
      snd (load_from_json jfs' lib filename) = lib\<lparr>next_id := v\<rparr>)"
  using text_header_failure[of tfs filename content lib]
    text_late_failure[of tfs' filename content' first rest n lib]
    json_header_failure[of jfs filename data lib]
    json_late_failure[of jfs' filename data' v lib]
  by blast

lemma load_empty_text:
  "load_from_text (Map.empty(str ''lib.txt'' \<mapsto> [])) example_library (str ''lib'') =
     (Inl IndexError, example_library)"
  by (simp add: load_from_text_def lib_txt readlines_def index_def)

lemma load_malformed_json:
  "load_from_json (Map.empty(str ''lib.json'' \<mapsto> Malformed)) example_library (str ''lib'') =
     (Inl JSONDecodeError, example_library)"
  by (simp add: load_from_json_def lib_json)

theorem failed_load_state_witness:
  "readlines [] = [] \<and>
   load_from_text (Map.empty(str ''lib.txt'' \<mapsto> [])) example_library (str ''lib'') =
     (Inl IndexError, example_library) \<and>
   py_int (strip (str ''7'' @ [10])) = Inr 7 \<and>
   load_from_text (Map.empty(str ''lib.txt'' \<mapsto> partial_file)) example_library (str ''lib'') =
     (Inl IndexError, \<lparr>books = [dune\<lparr>id_book := Some (IntV 5)\<rparr>], next_id = PInt 7\<rparr>) \<and>
   load_from_json (Map.empty(str ''lib.json'' \<mapsto> Malformed)) example_library (str ''lib'') =
     (Inl JSONDecodeError, example_library) \<and>
   getitem partial_document (str ''next_id'') = Inr (PInt 7) \<and>
   load_from_json (Map.empty(str ''lib.json'' \<mapsto> Document partial_document)) example_library
     (str ''lib'') = (Inl KeyError, example_library\<lparr>next_id := PInt 7\<rparr>)"
proof -
  have g: "getitem partial_document (str ''next_id'') = Inr (PInt 7)"
    by (simp add: partial_document_def)
  have r: "readlines [] = []"
    by (simp add: readlines_def)
  note t = failed_load_state[where tfs = "Map.empty(str ''lib.txt'' \<mapsto> [])" and content = "[]"
      and filename = "str ''lib''" and lib = example_library
      and tfs' = "Map.empty(str ''lib.txt'' \<mapsto> partial_file)" and content' = partial_file
      and first = "str ''7'' @ [10]"
      and rest = "[str ''5|Dune|Frank Herbert|1965|'' @ STATUS_YES @ [10], str ''bad'' @ [10]]"
      and n = 7
      and jfs = "Map.empty(str ''lib.json'' \<mapsto> Malformed)" and data = PNone
      and jfs' = "Map.empty(str ''lib.json'' \<mapsto> Document partial_document)"
      and data' = partial_document and v = "PInt 7"]
  from t show ?thesis
    using g r load_empty_text load_partial_text load_malformed_json load_partial_json py_int_7
    by (simp add: example_library_def)
qed

section \<open>Round trips\<close>

subsection \<open>JSON\<close>

lemma as_pyint_of_pyint: "as_pyint (of_pyint i) = Some i"
  by (cases i) simp_all

lemma id_setter_opt: "id_setter (opt_pyint i) = Inr i"
proof (cases i)
  case None
  then show ?thesis by (simp add: id_setter_def)
next
  case (Some k)
  then show ?thesis by (cases k) (simp_all add: id_setter_def)
qed

lemma status_setter_opt:
  "s = None \<or> s = Some STATUS_YES \<or> s = Some STATUS_NO \<Longrightarrow> status_setter (opt_str s) = Inr s"
  by auto

lemma from_dict_to_dict: "valid_fields b \<Longrightarrow> from_dict (to_dict b) = Inr b"
proof -
  assume v: "valid_fields b"
  have g: "getitem (to_dict b) (str ''title'') = Inr (PStr (title b))"
    "getitem (to_dict b) (str ''author'') = Inr (PStr (author b))"
    "getitem (to_dict b) (str ''year'') = Inr (of_pyint (year b))"
    "getitem (to_dict b) (str ''id'') = Inr (opt_pyint (id_book b))"
    "getitem (to_dict b) (str ''status'') = Inr (opt_str (status b))"
    by (simp_all add: to_dict_def str_def)
  have i: "Book_init (PStr (title b)) (PStr (author b)) (of_pyint (year b)) =
      Inr \<lparr>title = title b, author = author b, year = year b, id_book = None, status = None\<rparr>"
    using v by (simp add: Book_init_Inr_iff valid_fields_def as_pyint_of_pyint)
  have s: "status_setter (opt_str (status b)) = Inr (status b)"
    using v by (intro status_setter_opt) (simp add: valid_fields_def)
  have "from_dict (to_dict b) =
      Inr (\<lparr>title = title b, author = author b, year = year b, id_book = None, status = None\<rparr>
            \<lparr>id_book := id_book b, status := status b\<rparr>)"
    by (simp add: from_dict_def g i id_setter_opt s)
  then show ?thesis
    by simp
qed

lemma from_dicts_to_dicts: "list_all valid_fields bs \<Longrightarrow> from_dicts (map to_dict bs) = Inr bs"
  by (induction bs) (simp_all add: from_dict_to_dict)

lemma STATUS_encodable: "encodable STATUS_YES" "encodable STATUS_NO"
  by (simp_all add: encodable_def surrogate_def STATUS_YES_def STATUS_NO_def)

lemma keys_encodable:
  "encodable (str ''id'')" "encodable (str ''title'')" "encodable (str ''author'')"
  "encodable (str ''year'')" "encodable (str ''status'')" "encodable (str ''next_id'')"
  "encodable (str ''books'')"
  by (simp_all add: encodable_def surrogate_def str_def)

lemma json_dump_error_pyint: "short_pyint i \<Longrightarrow> json_dump_error (of_pyint i) = None"
  by (cases i) simp_all

lemma json_dump_error_to_dict:
  assumes "valid_fields b" and "writable b"
  shows "json_dump_error (to_dict b) = None"
proof -
  have i: "json_dump_error (opt_pyint (id_book b)) = None"
    using assms(2) by (cases "id_book b") (simp_all add: writable_def json_dump_error_pyint)
  have y: "json_dump_error (of_pyint (year b)) = None"
    using assms(2) by (simp add: writable_def json_dump_error_pyint)
  have s: "json_dump_error (opt_str (status b)) = None"
    using assms(1) by (auto simp: valid_fields_def STATUS_encodable)
  have t: "encodable (title b)" "encodable (author b)"
    using assms(2) by (simp_all add: writable_def)
  show ?thesis
    by (simp add: to_dict_def keys_encodable i y s t)
qed

lemma json_dump_error_books:
  "list_all valid_fields bs \<Longrightarrow> list_all writable bs \<Longrightarrow>
     first_error (map json_dump_error (map to_dict bs)) = None"
  by (induction bs) (simp_all add: json_dump_error_to_dict)

lemma json_roundtrip:
  assumes "list_all valid_fields (books lib)" and "list_all writable (books lib)"
    and "json_dump_error (next_id lib) = None"
  shows "fst (save_to_json jfs lib filename) = Inr () \<and>
     load_from_json (snd (save_to_json jfs lib filename)) lib0 filename = (Inr (), lib)"
proof -
  let ?data = "PDict [(str ''next_id'', next_id lib), (str ''books'', PList (map to_dict (books lib)))]"
  have "json_dump_error ?data = None"
    using assms json_dump_error_books[of "books lib"] by (simp add: keys_encodable)
  then have s: "save_to_json jfs lib filename =
      (Inr (), jfs(filename @ str ''.json'' \<mapsto> Document ?data))"
    by (simp add: save_to_json_def Let_def)
  have "lib0\<lparr>next_id := next_id lib, books := books lib\<rparr> = lib"
    by (cases lib; cases lib0) simp
  then show ?thesis
    using assms(1)
    by (simp add: s load_from_json_def Let_def from_dicts_to_dicts str_def)
qed

subsection \<open>Integers as text\<close>

lemma digits_of_chars: "c \<in> set (digits_of n) \<Longrightarrow> 48 \<le> c \<and> c \<le> 57"
proof (induction n rule: digits_of.induct)
  case (1 n)
  show ?case
  proof (cases "n < 10")
    case True
    with "1.prems" show ?thesis by (subst (asm) digits_of.simps) simp
  next
    case False
    have "n mod 10 < 10" by simp
    with False "1.prems" "1.IH" show ?thesis
      by (subst (asm) digits_of.simps) (auto)
  qed
qed

lemma digits_of_nonempty: "digits_of n \<noteq> []"
  by (subst digits_of.simps) simp

lemma parse_digits_all:
  "list_all ascii_digit ds \<Longrightarrow> parse_digits ds acc = Some (foldl dstep acc ds)"
  by (induction ds acc rule: parse_digits.induct) (auto simp: dstep_def ascii_digit_def)

lemma foldl_digits_of: "foldl dstep 0 (digits_of n) = n"
proof (induction n rule: digits_of.induct)
  case (1 n)
  show ?case
  proof (cases "n < 10")
    case True
    then show ?thesis by (subst digits_of.simps) (simp add: dstep_def)
  next
    case False
    then have "digits_of n = digits_of (n div 10) @ [48 + n mod 10]"
      by (subst digits_of.simps) simp
    with "1.IH" False show ?thesis
      by (simp add: dstep_def)
  qed
qed

lemma parse_number_digits_of: "parse_number (digits_of n) = Some n"
proof -
  obtain c cs where cs: "digits_of n = c # cs"
    using digits_of_nonempty[of n] by (cases "digits_of n") auto
  have all: "list_all ascii_digit (c # cs)"
    using digits_of_chars[of _ n] by (simp add: cs[symmetric] list_all_iff ascii_digit_def)
  then have "parse_number (c # cs) = Some (foldl dstep (dstep 0 c) cs)"
    by (simp add: parse_digits_all dstep_def)
  also have "\<dots> = Some (foldl dstep 0 (c # cs))" by simp
  finally show ?thesis
    using foldl_digits_of[of n] by (simp add: cs)
qed

lemma those_ascii_id: "list_all (\<lambda>c. c < 127) s \<Longrightarrow> those_ascii s = Some s"
  by (induction s) (simp_all add: to_ascii_def)

lemma dropWhile_hd: "s \<noteq> [] \<Longrightarrow> \<not> P (hd s) \<Longrightarrow> dropWhile P s = s"
  by (cases s) simp_all

lemma rev_dropWhile_last: "s \<noteq> [] \<Longrightarrow> \<not> P (last s) \<Longrightarrow> rev (dropWhile P (rev s)) = s"
  by (simp add: dropWhile_hd hd_rev)

lemma digits_of_hd: "48 \<le> hd (digits_of n) \<and> hd (digits_of n) \<le> 57"
  using digits_of_chars[of "hd (digits_of n)" n] digits_of_nonempty[of n] by simp

lemma digits_of_last: "48 \<le> last (digits_of n) \<and> last (digits_of n) \<le> 57"
  using digits_of_chars[of "last (digits_of n)" n] digits_of_nonempty[of n] by simp

lemma filter_digits_of: "filter ascii_digit (digits_of n) = digits_of n"
  using digits_of_chars[of _ n] by (simp add: ascii_digit_def)

lemma py_int_digits:
  assumes "length (digits_of n) \<le> max_str_digits"
  shows "py_int (digits_of n) = Inr (int n)"
proof -
  let ?s = "digits_of n"
  have "\<forall>c \<in> set ?s. c < 127"
    using digits_of_chars[of _ n] by fastforce
  then have a: "those_ascii ?s = Some ?s"
    by (intro those_ascii_id) (simp add: list_all_iff)
  have d: "dropWhile c_isspace ?s = ?s"
    using digits_of_hd[of n] digits_of_nonempty[of n]
    by (intro dropWhile_hd) (auto simp: c_isspace_def)
  have r: "rev (dropWhile c_isspace (rev ?s)) = ?s"
    using digits_of_last[of n] digits_of_nonempty[of n]
    by (intro rev_dropWhile_last) (auto simp: c_isspace_def)
  have h: "hd ?s \<noteq> 45" "hd ?s \<noteq> 43"
    using digits_of_hd[of n] by auto
  show ?thesis
    unfolding py_int_def a
    using assms by (simp add: d r h parse_number_digits_of filter_digits_of Let_def)
qed

lemma py_int_minus_digits:
  assumes "length (digits_of n) \<le> max_str_digits"
  shows "py_int (45 # digits_of n) = Inr (- int n)"
proof -
  let ?s = "digits_of n"
  have "\<forall>c \<in> set ?s. c < 127"
    using digits_of_chars[of _ n] by fastforce
  then have a: "those_ascii (45 # ?s) = Some (45 # ?s)"
    by (intro those_ascii_id) (simp add: list_all_iff)
  have r: "rev (dropWhile c_isspace (rev ?s)) = ?s"
    using digits_of_last[of n] digits_of_nonempty[of n]
    by (intro rev_dropWhile_last) (auto simp: c_isspace_def)
  have c: "\<not> c_isspace 45" by (simp add: c_isspace_def)
  show ?thesis
    unfolding py_int_def a
    using r assms by (simp add: c parse_number_digits_of filter_digits_of Let_def)
qed

lemma py_int_decimal: "short_int n \<Longrightarrow> py_int (decimal n) = Inr n"
proof (cases "n < 0")
  case True
  assume "short_int n"
  with True have "length (digits_of (nat (- n))) \<le> max_str_digits"
    by (simp add: short_int_def abs_if)
  from py_int_minus_digits[OF this] True show ?thesis
    by (simp add: decimal_def)
next
  case False
  assume "short_int n"
  with False have "length (digits_of (nat n)) \<le> max_str_digits"
    by (simp add: short_int_def abs_if)
  from py_int_digits[OF this] False show ?thesis
    by (simp add: decimal_def)
qed

lemma decimal_chars: "c \<in> set (decimal n) \<Longrightarrow> c = 45 \<or> (48 \<le> c \<and> c \<le> 57)"
  using digits_of_chars by (auto simp: decimal_def split: if_splits)

lemma decimal_nonempty: "decimal n \<noteq> []"
  using digits_of_nonempty by (simp add: decimal_def)

lemma decimal_encodable: "encodable (decimal n)"
  using decimal_chars[of _ n] by (fastforce simp: encodable_def surrogate_def list_all_iff)

subsection \<open>Lines\<close>

lemma universal_newlines_id: "13 \<notin> set s \<Longrightarrow> universal_newlines s = s"
  by (induction s rule: universal_newlines.induct) auto

lemma cut_lines_line:
  "10 \<notin> set a \<Longrightarrow> cut_lines cur (a @ 10 # rest) = (cur @ a @ [10]) # cut_lines [] rest"
  by (induction a arbitrary: cur) auto

lemma cut_lines_concat:
  "\<forall>l \<in> set ls. \<exists>a. l = a @ [10] \<and> 10 \<notin> set a \<Longrightarrow> cut_lines [] (concat ls) = ls"
proof (induction ls)
  case Nil
  then show ?case by simp
next
  case (Cons l ls)
  then obtain a where a: "l = a @ [10]" "10 \<notin> set a" by auto
  have "cut_lines [] (a @ 10 # concat ls) = (a @ [10]) # cut_lines [] (concat ls)"
    using cut_lines_line[OF a(2), of "[]" "concat ls"] by simp
  with Cons a show ?case by simp
qed

lemma split_acc_sep:
  "sep \<notin> set a \<Longrightarrow> split_acc sep cur (a @ sep # rest) = (cur @ a) # split_acc sep [] rest"
  by (induction a arbitrary: cur) auto

lemma split_acc_last: "sep \<notin> set a \<Longrightarrow> split_acc sep cur a = [cur @ a]"
  by (induction a arbitrary: cur) auto

lemma split_five:
  assumes "124 \<notin> set p0" "124 \<notin> set p1" "124 \<notin> set p2" "124 \<notin> set p3" "124 \<notin> set p4"
  shows "split (p0 @ 124 # p1 @ 124 # p2 @ 124 # p3 @ 124 # p4) 124 = [p0, p1, p2, p3, p4]"
  using assms by (simp add: split_def split_acc_sep split_acc_last)

lemma strip_line:
  assumes "body \<noteq> []" "\<not> isspace_cp (hd body)" "\<not> isspace_cp (last body)"
  shows "strip (body @ [10]) = body"
proof -
  have "dropWhile isspace_cp (body @ [10]) = body @ [10]"
    using assms(1,2) by (intro dropWhile_hd) simp_all
  moreover have "isspace_cp 10" by (simp add: isspace_cp_def)
  moreover have "dropWhile isspace_cp (rev body) = rev body"
    using assms(1,3) by (intro dropWhile_hd) (simp_all add: hd_rev)
  ultimately show ?thesis by (simp add: strip_def)
qed

lemma parse_line_fields:
  assumes n: "124 \<notin> set sid" "124 \<notin> set t" "124 \<notin> set a" "124 \<notin> set sy" "124 \<notin> set st"
    and e: "sid \<noteq> []" "\<not> isspace_cp (hd sid)" "st \<noteq> []" "\<not> isspace_cp (last st)"
    and v: "py_int sid = Inr i" "py_int sy = Inr y" "\<not> isdigit a" "st = STATUS_YES \<or> st = STATUS_NO"
  shows "parse_line (sid @ [124] @ t @ [124] @ a @ [124] @ sy @ [124] @ st @ [10]) =
     Inr \<lparr>title = t, author = a, year = IntV y, id_book = Some (IntV i), status = Some st\<rparr>"
proof -
  let ?body = "sid @ 124 # t @ 124 # a @ 124 # sy @ 124 # st"
  have "strip (?body @ [10]) = ?body"
    using e by (intro strip_line) simp_all
  then have s: "strip (sid @ [124] @ t @ [124] @ a @ [124] @ sy @ [124] @ st @ [10]) = ?body"
    by simp
  have b: "Book_init (PStr t) (PStr a) (PInt y) =
      Inr \<lparr>title = t, author = a, year = IntV y, id_book = None, status = None\<rparr>"
    using v(3) by (simp add: Book_init_Inr_iff)
  have st: "status_setter (PStr st) = Inr (Some st)"
    using v(4) by auto
  show ?thesis
    unfolding parse_line_def s split_five[OF n]
    using v(4) by (simp add: index_def v(1,2) b id_setter_def)
qed

lemma STATUS_chars:
  "124 \<notin> set STATUS_YES" "124 \<notin> set STATUS_NO" "10 \<notin> set STATUS_YES" "10 \<notin> set STATUS_NO"
  "13 \<notin> set STATUS_YES" "13 \<notin> set STATUS_NO"
  "\<not> isspace_cp (last STATUS_YES)" "\<not> isspace_cp (last STATUS_NO)"
  by (simp_all add: STATUS_YES_def STATUS_NO_def isspace_cp_def)

lemma decimal_not: "124 \<notin> set (decimal n)" "10 \<notin> set (decimal n)" "13 \<notin> set (decimal n)"
  using decimal_chars[of _ n] by fastforce+

lemma decimal_hd: "\<not> isspace_cp (hd (decimal n))"
proof -
  have "hd (decimal n) \<in> set (decimal n)"
    using decimal_nonempty by simp
  from decimal_chars[OF this] show ?thesis
    by (auto simp: isspace_cp_def)
qed

lemma decimal_last: "\<not> isspace_cp (last (decimal n))"
proof -
  have "last (decimal n) \<in> set (decimal n)"
    using decimal_nonempty by simp
  from decimal_chars[OF this] show ?thesis
    by (auto simp: isspace_cp_def)
qed

text \<open>The fields of a book that is safe for the text format and can be written.\<close>

lemma text_book_fields:
  assumes "text_safe b" and "writable b"
  obtains i y s where "id_book b = Some (IntV i)" "year b = IntV y" "status b = Some s"
    "s = STATUS_YES \<or> s = STATUS_NO" "short_int i" "short_int y"
    "book_line b = Inr (decimal i @ [124] @ title b @ [124] @ author b @ [124] @ decimal y @
       [124] @ s @ [10])"
proof -
  from assms(1) obtain i y s where f: "id_book b = Some (IntV i)" "year b = IntV y"
    "status b = Some s" "s = STATUS_YES \<or> s = STATUS_NO"
    by (auto simp: text_safe_def split: option.splits pyint.splits)
  from assms(2) f have sh: "short_int i" "short_int y"
    by (simp_all add: writable_def)
  then have "book_line b = Inr (decimal i @ [124] @ title b @ [124] @ author b @ [124] @
      decimal y @ [124] @ s @ [10])"
    by (simp add: book_line_def f str_of_int_def)
  with f sh that show ?thesis by blast
qed

lemma parse_book_line:
  assumes "text_safe b" and "writable b"
  shows "parse_line (projr (book_line b)) = Inr b"
proof -
  from assms obtain i y s where f: "id_book b = Some (IntV i)" "year b = IntV y"
    "status b = Some s" "s = STATUS_YES \<or> s = STATUS_NO" "short_int i" "short_int y"
    "book_line b = Inr (decimal i @ [124] @ title b @ [124] @ author b @ [124] @ decimal y @
       [124] @ s @ [10])"
    by (rule text_book_fields)
  from assms(1) have a: "\<not> isdigit (author b)"
    and c: "124 \<notin> set (title b)" "124 \<notin> set (author b)"
    by (auto simp: text_safe_def list_all_iff)
  have s1: "124 \<notin> set s" "s \<noteq> []" "\<not> isspace_cp (last s)"
    using f(4) STATUS_chars by (auto simp: STATUS_YES_def STATUS_NO_def)
  have "parse_line (decimal i @ [124] @ title b @ [124] @ author b @ [124] @ decimal y @
       [124] @ s @ [10]) =
      Inr \<lparr>title = title b, author = author b, year = IntV y, id_book = Some (IntV i),
           status = Some s\<rparr>"
    by (rule parse_line_fields)
       (simp_all add: decimal_not c s1 decimal_nonempty decimal_hd py_int_decimal f(5,6) a f(4))
  moreover have "\<lparr>title = title b, author = author b, year = IntV y, id_book = Some (IntV i),
      status = Some s\<rparr> = b"
    using f(1-3) by (cases b) simp
  ultimately show ?thesis by (simp add: f(7))
qed

lemma book_line_shape:
  assumes "text_safe b" and "writable b"
  shows "\<exists>a. projr (book_line b) = a @ [10] \<and> 10 \<notin> set a"
    and "13 \<notin> set (projr (book_line b))"
    and "encodable (projr (book_line b))"
    and "book_line b = Inr (projr (book_line b))"
proof -
  from assms obtain i y s where f: "id_book b = Some (IntV i)" "year b = IntV y"
    "status b = Some s" "s = STATUS_YES \<or> s = STATUS_NO" "short_int i" "short_int y"
    "book_line b = Inr (decimal i @ [124] @ title b @ [124] @ author b @ [124] @ decimal y @
       [124] @ s @ [10])"
    by (rule text_book_fields)
  from assms(1) have c: "10 \<notin> set (title b)" "10 \<notin> set (author b)"
    "13 \<notin> set (title b)" "13 \<notin> set (author b)"
    by (auto simp: text_safe_def list_all_iff)
  from assms(2) have e: "encodable (title b)" "encodable (author b)"
    by (simp_all add: writable_def)
  have s: "10 \<notin> set s" "13 \<notin> set s" "encodable s"
    using f(4) STATUS_chars STATUS_encodable by auto
  let ?a = "decimal i @ [124] @ title b @ [124] @ author b @ [124] @ decimal y @ [124] @ s"
  have "projr (book_line b) = ?a @ [10]" by (simp add: f(7))
  moreover have "10 \<notin> set ?a" using c s by (simp add: decimal_not)
  ultimately show "\<exists>a. projr (book_line b) = a @ [10] \<and> 10 \<notin> set a" by blast
  show "13 \<notin> set (projr (book_line b))"
    using c s by (simp add: f(7) decimal_not)
  show "encodable (projr (book_line b))"
    using e s decimal_encodable[of i] decimal_encodable[of y]
    by (simp add: f(7) encodable_def surrogate_def)
  show "book_line b = Inr (projr (book_line b))" by (simp add: f(7))
qed

lemma write_books_all:
  "list_all text_safe bs \<Longrightarrow> list_all writable bs \<Longrightarrow>
     write_books bs content = (Inr (), content @ concat (map (\<lambda>b. projr (book_line b)) bs))"
proof (induction bs arbitrary: content)
  case Nil
  then show ?case by simp
next
  case (Cons b bs)
  then have b: "text_safe b" "writable b" by simp_all
  have l: "book_line b = Inr (projr (book_line b))" and e: "encodable (projr (book_line b))"
    using book_line_shape[OF b] by simp_all
  have "write_books (b # bs) content = write_books bs (content @ projr (book_line b))"
    by (subst write_books.simps, subst l) (simp add: f_write_def e)
  with Cons show ?case by simp
qed

lemma text_loop_lines:
  "list_all text_safe bs \<Longrightarrow> list_all writable bs \<Longrightarrow>
     text_loop (map (\<lambda>b. projr (book_line b)) bs) l = (Inr (), l\<lparr>books := books l @ bs\<rparr>)"
proof (induction bs arbitrary: l)
  case Nil
  then show ?case by simp
next
  case (Cons b bs)
  then show ?case by (simp add: parse_book_line)
qed

lemma readlines_saved:
  assumes "list_all text_safe bs" and "list_all writable bs"
  shows "readlines (decimal n @ 10 # concat (map (\<lambda>b. projr (book_line b)) bs)) =
     (decimal n @ [10]) # map (\<lambda>b. projr (book_line b)) bs"
proof -
  let ?ls = "map (\<lambda>b. projr (book_line b)) bs"
  let ?c = "decimal n @ 10 # concat ?ls"
  have "13 \<notin> set ?c"
    using assms book_line_shape(2) by (auto simp: decimal_not list_all_iff)
  then have u: "universal_newlines ?c = ?c" by (rule universal_newlines_id)
  have "\<forall>l \<in> set ?ls. \<exists>a. l = a @ [10] \<and> 10 \<notin> set a"
    using assms book_line_shape(1) by (auto simp: list_all_iff)
  then have "cut_lines [] (concat ?ls) = ?ls"
    by (rule cut_lines_concat)
  then have "cut_lines [] (decimal n @ 10 # concat ?ls) = (decimal n @ [10]) # ?ls"
    using cut_lines_line[of "decimal n" "[]" "concat ?ls"]
    by (simp add: decimal_not)
  then show ?thesis
    unfolding readlines_def u by simp
qed

lemma text_roundtrip:
  assumes "next_id lib = PInt n" and "short_int n"
    and "list_all text_safe (books lib)" and "list_all writable (books lib)"
  shows "fst (save_to_text repr_other tfs lib filename) = Inr () \<and>
     load_from_text (snd (save_to_text repr_other tfs lib filename)) lib0 filename = (Inr (), lib)"
proof -
  let ?ls = "map (\<lambda>b. projr (book_line b)) (books lib)"
  have w: "f_write [] (decimal n @ [10]) = Inr (decimal n @ [10])"
    using decimal_encodable[of n] by (simp add: f_write_def encodable_def surrogate_def)
  have s: "save_to_text repr_other tfs lib filename =
      (Inr (), tfs(filename @ str ''.txt'' \<mapsto> decimal n @ 10 # concat ?ls))"
    using assms(1,2)
    by (simp add: save_to_text_def Let_def str_of_int_def w write_books_all[OF assms(3,4)])
  have h: "strip (decimal n @ [10]) = decimal n"
    by (rule strip_line) (simp_all add: decimal_nonempty decimal_hd decimal_last)
  have l: "lib0\<lparr>next_id := PInt n, books := books lib\<rparr> = lib"
    using assms(1) by (cases lib; cases lib0) simp
  show ?thesis
    by (simp add: s load_from_text_def readlines_saved[OF assms(3,4)] index_def h
        py_int_decimal[OF assms(2)] text_loop_lines[OF assms(3,4)] l)
qed

subsection \<open>Catalogs that do not come back\<close>

lemma not_isdigit_c: "\<not> isdigit (str ''c'')"
  by (simp add: isdigit_def str_def isdigit_cp_def decimal_cp_def decimal_zeros_def
        other_digit_ranges_def)

lemma pipe_library_added:
  "add_book Library_init (PStr (str ''a|b'')) (PStr (str ''c'')) (PInt 1) = (Inr pipe_book, pipe_library)"
  by (simp add: add_book_def Book_init_def year_setter_def id_setter_def Let_def not_isdigit_c
      Library_init_def pipe_book_def pipe_library_def)

lemma surrogate_library_added:
  "add_book Library_init (PStr [56448]) (PStr (str ''c'')) (PInt 1) =
     (Inr surrogate_book, surrogate_library)"
  by (simp add: add_book_def Book_init_def year_setter_def id_setter_def Let_def not_isdigit_c
      Library_init_def surrogate_book_def surrogate_library_def)

lemma huge_library_added:
  "add_book Library_init (PStr (str ''a'')) (PStr (str ''c'')) (PInt huge) = (Inr huge_book, huge_library)"
  by (simp add: add_book_def Book_init_def year_setter_def id_setter_def Let_def not_isdigit_c
      Library_init_def huge_book_def huge_library_def)

lemma str_of_int_small: "str_of_int 1 = Inr [49]" "str_of_int 2 = Inr [50]"
  by (simp_all add: str_of_int_def short_int_def decimal_def digits_of.simps max_str_digits_def)

lemma digits_of_pow10: "length (digits_of (10 ^ k)) = Suc k"
proof (induction k)
  case 0
  then show ?case by (subst digits_of.simps) simp
next
  case (Suc k)
  have "digits_of (10 ^ Suc k) = digits_of (10 ^ k) @ [48]"
    by (subst digits_of.simps) simp
  with Suc show ?case by simp
qed

lemma not_short_pow10: "max_str_digits \<le> k \<Longrightarrow> \<not> short_int (10 ^ k)"
proof -
  assume k: "max_str_digits \<le> k"
  have e: "nat ((10::int) ^ k) = 10 ^ k"
    by (simp add: nat_power_eq)
  show ?thesis
    using k by (simp add: short_int_def e digits_of_pow10)
qed

lemma huge_not_short: "\<not> short_int huge"
  unfolding huge_def by (rule not_short_pow10) (simp add: max_str_digits_def)

lemma encodable_simps:
  "encodable [] = True"
  "encodable (c # cs) = (\<not> (55296 \<le> c \<and> c \<le> 57343) \<and> encodable cs)"
  "encodable (xs @ ys) = (encodable xs \<and> encodable ys)"
  by (simp_all add: encodable_def surrogate_def)

lemma saved_pipe:
  "save_to_text repr_unused Map.empty pipe_library (str ''lib'') =
     (Inr (), Map.empty(str ''lib.txt'' \<mapsto> str ''2'' @ [10] @ str ''1|a|b|c|1|'' @ STATUS_YES @ [10]))"
  by (simp add: save_to_text_def pipe_library_def pipe_book_def book_line_def str_of_int_small
      f_write_def encodable_simps STATUS_encodable str_def)

lemma parse_line_pipe: "parse_line (str ''1|a|b|c|1|'' @ STATUS_YES @ [10]) = Inl ValueError"
  by (simp add: eval_defs)

lemma load_saved_pipe:
  "load_from_text (snd (save_to_text repr_unused Map.empty pipe_library (str ''lib''))) Library_init
     (str ''lib'') = (Inl ValueError, \<lparr>books = [], next_id = PInt 2\<rparr>)"
proof -
  have "readlines (str ''2'' @ [10] @ str ''1|a|b|c|1|'' @ STATUS_YES @ [10]) =
      [str ''2'' @ [10], str ''1|a|b|c|1|'' @ STATUS_YES @ [10]]"
    by (simp add: eval_defs)
  moreover have "py_int (strip (str ''2'' @ [10])) = Inr 2"
    by (simp add: eval_defs)
  ultimately show ?thesis
    unfolding saved_pipe
    by (simp add: load_from_text_def lib_txt index_def parse_line_pipe Library_init_def)
qed

lemma save_surrogate_json:
  "save_to_json Map.empty surrogate_library (str ''lib'') =
     (Inl UnicodeEncodeError, Map.empty(str ''lib.json'' \<mapsto> Malformed))"
  by (simp add: save_to_json_def Let_def surrogate_library_def surrogate_book_def to_dict_def
      keys_encodable encodable_simps short_int_def digits_of.simps max_str_digits_def lib_json)

lemma save_surrogate_text:
  "save_to_text repr_unused Map.empty surrogate_library (str ''lib'') =
     (Inl UnicodeEncodeError, Map.empty(str ''lib.txt'' \<mapsto> str ''2'' @ [10]))"
  by (simp add: save_to_text_def surrogate_library_def surrogate_book_def book_line_def
      str_of_int_small f_write_def encodable_simps STATUS_encodable str_def)

lemma save_huge_json:
  "save_to_json Map.empty huge_library (str ''lib'') =
     (Inl ValueError, Map.empty(str ''lib.json'' \<mapsto> Malformed))"
  using huge_not_short
  by (simp add: save_to_json_def Let_def huge_library_def huge_book_def to_dict_def
      keys_encodable encodable_simps short_int_def[of 1] short_int_def[of 2] digits_of.simps
      max_str_digits_def lib_json str_def)

lemma save_huge_text:
  "save_to_text repr_unused Map.empty huge_library (str ''lib'') =
     (Inl ValueError, Map.empty(str ''lib.txt'' \<mapsto> str ''2'' @ [10]))"
  using huge_not_short
  by (simp add: save_to_text_def huge_library_def huge_book_def book_line_def
      str_of_int_small str_of_int_def[of huge] f_write_def encodable_simps str_def)

text \<open>
  Three libraries that \<^verbatim>\<open>add_book\<close> makes of valid input do not come back. A title with
  the separator is written by \<^verbatim>\<open>save_to_text\<close> and refused by \<^verbatim>\<open>load_from_text\<close>. A title
  that is a lone surrogate, and a year of 4301 digits, make both \<^verbatim>\<open>save_to_json\<close> and
  \<^verbatim>\<open>save_to_text\<close> raise and leave a file that does not hold the library.
\<close>

theorem roundtrip_fails:
  "add_book Library_init (PStr (str ''a|b'')) (PStr (str ''c'')) (PInt 1) =
     (Inr pipe_book, pipe_library) \<and>
   save_to_text repr_unused Map.empty pipe_library (str ''lib'') =
     (Inr (), Map.empty(str ''lib.txt'' \<mapsto> str ''2'' @ [10] @ str ''1|a|b|c|1|'' @ STATUS_YES @ [10])) \<and>
   load_from_text (snd (save_to_text repr_unused Map.empty pipe_library (str ''lib''))) Library_init
     (str ''lib'') = (Inl ValueError, \<lparr>books = [], next_id = PInt 2\<rparr>) \<and>
   add_book Library_init (PStr [56448]) (PStr (str ''c'')) (PInt 1) =
     (Inr surrogate_book, surrogate_library) \<and>
   save_to_json Map.empty surrogate_library (str ''lib'') =
     (Inl UnicodeEncodeError, Map.empty(str ''lib.json'' \<mapsto> Malformed)) \<and>
   save_to_text repr_unused Map.empty surrogate_library (str ''lib'') =
     (Inl UnicodeEncodeError, Map.empty(str ''lib.txt'' \<mapsto> str ''2'' @ [10])) \<and>
   add_book Library_init (PStr (str ''a'')) (PStr (str ''c'')) (PInt huge) = (Inr huge_book, huge_library) \<and>
   save_to_json Map.empty huge_library (str ''lib'') =
     (Inl ValueError, Map.empty(str ''lib.json'' \<mapsto> Malformed)) \<and>
   save_to_text repr_unused Map.empty huge_library (str ''lib'') =
     (Inl ValueError, Map.empty(str ''lib.txt'' \<mapsto> str ''2'' @ [10]))"
  using pipe_library_added saved_pipe load_saved_pipe surrogate_library_added save_surrogate_json
    save_surrogate_text huge_library_added save_huge_json save_huge_text
  by blast

text \<open>
  C2 (as amended). For a library whose books have fields the setters accept and can be
  written (no surrogate in a title or an author, no id or year of more than 4300
  digits), and whose \<open>next_id\<close> can be written, \<^verbatim>\<open>save_to_json\<close> succeeds and loading what
  it wrote gives the library back. For a library whose \<open>next_id\<close> is an integer of at
  most 4300 digits and whose books are safe for the text format and can be written,
  \<^verbatim>\<open>save_to_text\<close> succeeds and loading what it wrote gives the library back.
\<close>

theorem save_load_roundtrip:
  "(list_all valid_fields (books lib) \<and> list_all writable (books lib) \<and>
      json_dump_error (next_id lib) = None \<longrightarrow>
      fst (save_to_json jfs lib filename) = Inr () \<and>
      load_from_json (snd (save_to_json jfs lib filename)) lib0 filename = (Inr (), lib)) \<and>
   (next_id lib' = PInt n \<and> short_int n \<and> list_all text_safe (books lib') \<and>
      list_all writable (books lib') \<longrightarrow>
      fst (save_to_text repr_other tfs lib' filename) = Inr () \<and>
      load_from_text (snd (save_to_text repr_other tfs lib' filename)) lib0 filename =
        (Inr (), lib'))"
  using json_roundtrip[of lib jfs filename lib0]
    text_roundtrip[of lib' n repr_other tfs filename lib0]
  by blast

lemma example_valid: "list_all valid_fields (books example_library)"
  using not_isdigit_names
  by (simp add: example_library_def dune_def foundation_def valid_fields_def)

lemma example_text_safe: "list_all text_safe (books example_library)"
  using not_isdigit_names
  by (simp add: example_library_def dune_def foundation_def text_safe_def str_def)

lemma small_short: "short_int 1" "short_int 2" "short_int 3" "short_int 1965" "short_int 1951"
  by (simp_all add: short_int_def digits_of.simps max_str_digits_def)

lemma example_writable: "list_all writable (books example_library)"
  by (simp add: example_library_def dune_def foundation_def writable_def small_short
      encodable_simps str_def)

theorem save_load_roundtrip_witness:
  "list_all valid_fields (books example_library) \<and>
   list_all writable (books example_library) \<and>
   list_all text_safe (books example_library) \<and>
   json_dump_error (next_id example_library) = None \<and>
   next_id example_library = PInt 3 \<and> short_int 3 \<and>
   save_to_json Map.empty example_library (str ''lib'') =
     (Inr (), Map.empty(str ''lib.json'' \<mapsto> Document (PDict [(str ''next_id'', PInt 3),
        (str ''books'', PList [to_dict dune, to_dict foundation])]))) \<and>
   load_from_json (snd (save_to_json Map.empty example_library (str ''lib''))) Library_init
     (str ''lib'') = (Inr (), example_library) \<and>
   fst (save_to_text repr_unused Map.empty example_library (str ''lib'')) = Inr () \<and>
   load_from_text (snd (save_to_text repr_unused Map.empty example_library (str ''lib'')))
     Library_init (str ''lib'') = (Inr (), example_library)"
proof -
  have n: "next_id example_library = PInt 3" "json_dump_error (next_id example_library) = None"
    by (simp_all add: example_library_def small_short)
  have j: "save_to_json Map.empty example_library (str ''lib'') =
     (Inr (), Map.empty(str ''lib.json'' \<mapsto> Document (PDict [(str ''next_id'', PInt 3),
        (str ''books'', PList [to_dict dune, to_dict foundation])])))"
    using save_load_roundtrip[of example_library Map.empty "str ''lib''" Library_init
      example_library 3 repr_unused Map.empty] example_valid example_writable n
    by (cases "json_dump_error (PDict [(str ''next_id'', PInt 3),
        (str ''books'', PList [to_dict dune, to_dict foundation])])")
       (simp_all add: save_to_json_def Let_def example_library_def lib_json)
  from save_load_roundtrip[of example_library Map.empty "str ''lib''" Library_init
      example_library 3 repr_unused Map.empty]
    example_valid example_writable example_text_safe n small_short(3) j
  show ?thesis by simp
qed

end
